theory Spec2Isabelle
  imports Main "HOL-Library.Word"
begin

section \<open>Data model of \<open>src/App.tsx\<close>\<close>

text \<open>
  The component \<open>App\<close> keeps nine pieces of React state. Every handler is embedded as a
  function from the state its closure sees (and from the answers of the hosting
  environment) to the list of effects it performs, in program order: calls across the
  boundary (remote service, browser, hosting environment) and calls of state setters.
  The state after a handler is the state before it with the setter calls applied.

  Strings are \<open>char list\<close>; a character stands for one code unit in the range 0..255.
  A value that may be \<open>null\<close> or \<open>undefined\<close> is an \<open>option\<close>.
\<close>

type_synonym byte = "8 word"

record file_t =
  file_name :: string
  file_type :: string
  file_bytes :: "byte list"

record blob =
  blob_type :: string
  blob_bytes :: "byte list"

text \<open>A thrown value: an object whose \<open>message\<close> property may be missing.\<close>

datatype js_error = Error (message: "string option")

datatype aspect_ratio = Ratio_16_9 | Ratio_9_16

datatype resolution_t = Res_720p | Res_1080p

record reference_image =
  ref_file :: "file_t option"
  previewUrl :: "string option"
  base64 :: "string option"

record app_state =
  hasApiKey :: bool
  prompt :: string
  referenceImage :: reference_image
  aspectRatio :: aspect_ratio
  resolution :: resolution_t
  isLoading :: bool
  loadingMessage :: string
  generatedVideoUrl :: "string option"
  error :: "string option"

text \<open>The request of \<open>ai.models.generateVideos\<close> (lines 133--148).\<close>

record image_part =
  imageBytes :: string
  mimeType :: string

record video_config =
  numberOfVideos :: nat
  config_resolution :: resolution_t
  config_aspectRatio :: aspect_ratio

record payload =
  model :: string
  payload_prompt :: string
  config :: video_config
  image :: "image_part option"

text \<open>
  The long-running operation of the service, as far as the code reads it:
  \<open>operation.done\<close> and \<open>operation.response?.generatedVideos?.[0]?.video?.uri\<close>.
  Every link of that chain may be absent.
\<close>

record video_t =
  uri :: "string option"

record generated_video =
  video :: "video_t option"

record videos_response =
  generatedVideos :: "generated_video list option"

record operation =
  op_name :: string
  op_done :: "bool option"
  op_response :: "videos_response option"

record http_response =
  ok :: bool
  statusText :: string
  body_blob :: "js_error + blob"

text \<open>What \<open>FileReader.readAsDataURL\<close> ends with: \<open>onload\<close> with a string result,
  \<open>onload\<close> with a result that is not a string, or \<open>onerror\<close>.\<close>

datatype reader_outcome = Loaded_string string | Loaded_other | Reader_error js_error

text \<open>
  The environment: everything the component calls and does not define. The poll request
  takes the number of polls made before it, so that the service may answer the same
  handle differently over time. \<open>aistudio\<close> is \<open>window.aistudio\<close>, which may be absent.
\<close>

record aistudio_t =
  hasSelectedApiKey :: "js_error + bool"
  openSelectKey :: "js_error option"

record env =
  API_KEY :: "string option"
  newGoogleGenAI :: "string option \<Rightarrow> js_error option"
  generateVideos :: "payload \<Rightarrow> js_error + operation"
  getVideosOperation :: "nat \<Rightarrow> operation \<Rightarrow> js_error + operation"
  fetch :: "string \<Rightarrow> js_error + http_response"
  createObjectURL :: "file_t + blob \<Rightarrow> string"
  readAsDataURL :: "file_t \<Rightarrow> reader_outcome"
  aistudio :: "aistudio_t option"

text \<open>Effects, in the order the code performs them.\<close>

datatype event =
    ConsoleError
  | NewGoogleGenAI "string option"
  | GenerateVideos payload
  | SetTimeout nat
  | GetVideosOperation operation
  | Fetch string
  | ReadBlob
  | CreateObjectURL "file_t + blob"
  | RevokeObjectURL string
  | ReadAsDataURL file_t
  | HasSelectedApiKey
  | OpenSelectKey
  | SetHasApiKey bool
  | SetPrompt string
  | SetReferenceImage reference_image
  | SetAspectRatio aspect_ratio
  | SetResolution resolution_t
  | SetIsLoading bool
  | SetLoadingMessage string
  | SetGeneratedVideoUrl "string option"
  | SetError "string option"

fun apply_event :: "app_state \<Rightarrow> event \<Rightarrow> app_state" where
  "apply_event s (SetHasApiKey b) = s\<lparr>hasApiKey := b\<rparr>"
| "apply_event s (SetPrompt p) = s\<lparr>prompt := p\<rparr>"
| "apply_event s (SetReferenceImage r) = s\<lparr>referenceImage := r\<rparr>"
| "apply_event s (SetAspectRatio a) = s\<lparr>aspectRatio := a\<rparr>"
| "apply_event s (SetResolution r) = s\<lparr>resolution := r\<rparr>"
| "apply_event s (SetIsLoading b) = s\<lparr>isLoading := b\<rparr>"
| "apply_event s (SetLoadingMessage m) = s\<lparr>loadingMessage := m\<rparr>"
| "apply_event s (SetGeneratedVideoUrl v) = s\<lparr>generatedVideoUrl := v\<rparr>"
| "apply_event s (SetError e) = s\<lparr>error := e\<rparr>"
| "apply_event s _ = s"

definition apply_events :: "app_state \<Rightarrow> event list \<Rightarrow> app_state" where
  "apply_events s evs = foldl apply_event s evs"

text \<open>The states the component passes through while a list of effects is performed:
  the state before the first effect, and the state after each one.\<close>

fun states_of :: "app_state \<Rightarrow> event list \<Rightarrow> app_state list" where
  "states_of s [] = [s]"
| "states_of s (e # evs) = s # states_of (apply_event s e) evs"

text \<open>Readings of a list of effects: which of them set state, the requests submitted,
  the URLs fetched, and the error messages handed to \<open>setError\<close>.\<close>

fun is_setter :: "event \<Rightarrow> bool" where
  "is_setter (SetHasApiKey b) = True"
| "is_setter (SetPrompt p) = True"
| "is_setter (SetReferenceImage r) = True"
| "is_setter (SetAspectRatio a) = True"
| "is_setter (SetResolution r) = True"
| "is_setter (SetIsLoading b) = True"
| "is_setter (SetLoadingMessage m) = True"
| "is_setter (SetGeneratedVideoUrl v) = True"
| "is_setter (SetError e) = True"
| "is_setter _ = False"

definition submitted_payloads :: "event list \<Rightarrow> payload list" where
  "submitted_payloads evs =
     concat (map (\<lambda>ev. case ev of GenerateVideos p \<Rightarrow> [p] | _ \<Rightarrow> []) evs)"

definition fetched_urls :: "event list \<Rightarrow> string list" where
  "fetched_urls evs = concat (map (\<lambda>ev. case ev of Fetch u \<Rightarrow> [u] | _ \<Rightarrow> []) evs)"

definition surfaced_errors :: "event list \<Rightarrow> string list" where
  "surfaced_errors evs =
     concat (map (\<lambda>ev. case ev of SetError (Some m) \<Rightarrow> [m] | _ \<Rightarrow> []) evs)"

section \<open>String operations of the language\<close>

text \<open>JavaScript truthiness of a value that is a string, \<open>null\<close> or \<open>undefined\<close>.\<close>

fun truthy :: "string option \<Rightarrow> bool" where
  "truthy None = False"
| "truthy (Some s) = (s \<noteq> [])"

text \<open>\<open>String.prototype.includes\<close>: some suffix of the string starts with the pattern.\<close>

fun starts_with :: "string \<Rightarrow> string \<Rightarrow> bool" where
  "starts_with s [] = True"
| "starts_with [] (p # ps) = False"
| "starts_with (c # cs) (p # ps) = (c = p \<and> starts_with cs ps)"

fun str_includes :: "string \<Rightarrow> string \<Rightarrow> bool" where
  "str_includes [] pat = starts_with [] pat"
| "str_includes (c # cs) pat = (starts_with (c # cs) pat \<or> str_includes cs pat)"

text \<open>\<open>String.prototype.trim\<close>: white space and line terminators (here: the ones below
  code 256) are dropped at both ends.\<close>

definition is_white_space :: "char \<Rightarrow> bool" where
  "is_white_space c = (of_char c \<in> {9, 10, 11, 12, 13, 32, 160 :: nat})"

definition trim :: "string \<Rightarrow> string" where
  "trim s = rev (dropWhile is_white_space (rev (dropWhile is_white_space s)))"

text \<open>\<open>s.split(',')\<close>: the pieces between the commas; always at least one piece.\<close>

fun split_comma :: "string \<Rightarrow> string list" where
  "split_comma [] = [[]]"
| "split_comma (c # cs) =
     (if c = CHR '','' then [] # split_comma cs
      else (case split_comma cs of
              [] \<Rightarrow> [[c]]
            | piece # pieces \<Rightarrow> (c # piece) # pieces))"

text \<open>Reading an index of an array: \<open>undefined\<close> out of range.\<close>

fun index_opt :: "'a list \<Rightarrow> nat \<Rightarrow> 'a option" where
  "index_opt [] n = None"
| "index_opt (x # xs) 0 = Some x"
| "index_opt (x # xs) (Suc n) = index_opt xs n"

text \<open>A template literal prints \<open>undefined\<close> for a missing value.\<close>

fun template_text :: "string option \<Rightarrow> string" where
  "template_text None = ''undefined''"
| "template_text (Some s) = s"

section \<open>Reading a file as base64 (lines 6--19)\<close>

text \<open>
  The browser hands \<open>fileToBase64\<close> a data URL. For the files a user can pick, the
  File API builds it as \<open>data:\<close>, the MIME type, \<open>;base64,\<close> and the base64 text
  (RFC 4648, with padding) of the content. \<open>dataURL\<close> is that standard answer; the
  handlers below take the reader from the environment and do not depend on it.
\<close>

definition base64_alphabet :: string where
  "base64_alphabet =
     ''ABCDEFGHIJKLMNOPQRSTUVWXYZabcdefghijklmnopqrstuvwxyz0123456789+/''"

definition sextet :: "nat \<Rightarrow> char" where
  "sextet n = base64_alphabet ! (n mod 64)"

fun base64_encode :: "byte list \<Rightarrow> string" where
  "base64_encode [] = []"
| "base64_encode [a] =
     [sextet (unat a div 4), sextet (unat a mod 4 * 16), CHR ''='', CHR ''='']"
| "base64_encode [a, b] =
     [sextet (unat a div 4), sextet (unat a mod 4 * 16 + unat b div 16),
      sextet (unat b mod 16 * 4), CHR ''='']"
| "base64_encode (a # b # c # rest) =
     [sextet (unat a div 4), sextet (unat a mod 4 * 16 + unat b div 16),
      sextet (unat b mod 16 * 4 + unat c div 64), sextet (unat c mod 64)]
     @ base64_encode rest"

definition dataURL :: "file_t \<Rightarrow> string" where
  "dataURL f = ''data:'' @ file_type f @ '';base64,'' @ base64_encode (file_bytes f)"

text \<open>
  \<open>fileToBase64\<close>: the promise resolves with \<open>reader.result.split(',')[1]\<close>, which is
  \<open>undefined\<close> when the result has no comma, and rejects when the result is not a string
  or the reader fails.
\<close>

definition fileToBase64 :: "env \<Rightarrow> file_t \<Rightarrow> js_error + string option" where
  "fileToBase64 e f =
     (case readAsDataURL e f of
        Loaded_string r \<Rightarrow> Inr (index_opt (split_comma r) 1)
      | Loaded_other \<Rightarrow> Inl (Error (Some ''Failed to read file as base64 string''))
      | Reader_error err \<Rightarrow> Inl err)"

section \<open>The handlers of the component\<close>

definition LOADING_MESSAGES :: "string list" where
  "LOADING_MESSAGES =
     [''Summoning digital muses...'',
      ''Warming up the pixels...'',
      ''Choreographing the frames...'',
      ''This might take a few minutes. Great art needs patience!'',
      ''Rendering cinematic magic...'',
      ''Almost there, polishing the final cut...'',
      ''Consulting with the AI director...'']"

text \<open>The initial values of the nine \<open>useState\<close> calls (lines 42--50).\<close>

definition initial_state :: app_state where
  "initial_state =
     \<lparr>hasApiKey = False,
      prompt = ''A neon hologram of a cat driving a sports car at top speed on a rainy night in a futuristic city'',
      referenceImage = \<lparr>ref_file = None, previewUrl = None, base64 = None\<rparr>,
      aspectRatio = Ratio_16_9,
      resolution = Res_1080p,
      isLoading = False,
      loadingMessage = LOADING_MESSAGES ! 0,
      generatedVideoUrl = None,
      error = None\<rparr>"

text \<open>\<open>checkApiKey\<close> (lines 54--65); the effect of lines 67--69 runs it once, on mount.\<close>

definition checkApiKey :: "env \<Rightarrow> event list" where
  "checkApiKey e =
     (case aistudio e of
        None \<Rightarrow> [SetHasApiKey False]
      | Some a \<Rightarrow>
          HasSelectedApiKey #
          (case hasSelectedApiKey a of
             Inl err \<Rightarrow> [ConsoleError, SetHasApiKey False]
           | Inr b \<Rightarrow> (if b then [SetHasApiKey True] else [SetHasApiKey False])))"

definition on_mount :: "env \<Rightarrow> event list" where
  "on_mount e = checkApiKey e"

text \<open>\<open>handleSelectKey\<close> (lines 92--101). Without \<open>window.aistudio\<close> the call itself
  throws, inside the \<open>try\<close>.\<close>

definition handleSelectKey :: "env \<Rightarrow> event list" where
  "handleSelectKey e =
     (case aistudio e of
        None \<Rightarrow>
          [ConsoleError,
           SetError (Some ''Could not open the API key selection dialog. Please try again.'')]
      | Some a \<Rightarrow>
          OpenSelectKey #
          (case openSelectKey a of
             None \<Rightarrow> [SetHasApiKey True]
           | Some err \<Rightarrow>
               [ConsoleError,
                SetError (Some ''Could not open the API key selection dialog. Please try again.'')]))"

text \<open>\<open>if (referenceImage.previewUrl) URL.revokeObjectURL(referenceImage.previewUrl)\<close>.\<close>

fun revoke_preview :: "string option \<Rightarrow> event list" where
  "revoke_preview None = []"
| "revoke_preview (Some u) = (if u = [] then [] else [RevokeObjectURL u])"

text \<open>\<open>handleImageChange\<close> (lines 103--113), for the first file of the input, if any.
  When \<open>fileToBase64\<close> rejects, the handler ends there, after the revocation and the
  creation of the new object URL.\<close>

definition handleImageChange :: "env \<Rightarrow> app_state \<Rightarrow> file_t option \<Rightarrow> event list" where
  "handleImageChange e s picked =
     (case picked of
        None \<Rightarrow> []
      | Some f \<Rightarrow>
          revoke_preview (previewUrl (referenceImage s))
          @ [CreateObjectURL (Inl f), ReadAsDataURL f]
          @ (case fileToBase64 e f of
               Inl err \<Rightarrow> []
             | Inr b \<Rightarrow>
                 [SetReferenceImage
                    \<lparr>ref_file = Some f,
                     previewUrl = Some (createObjectURL e (Inl f)),
                     base64 = b\<rparr>]))"

text \<open>\<open>removeImage\<close> (lines 115--120).\<close>

definition removeImage :: "app_state \<Rightarrow> event list" where
  "removeImage s =
     revoke_preview (previewUrl (referenceImage s))
     @ [SetReferenceImage \<lparr>ref_file = None, previewUrl = None, base64 = None\<rparr>]"

section \<open>\<open>handleGenerateVideo\<close> (lines 122--183)\<close>

text \<open>Line 123: \<open>if (!prompt.trim() || isLoading) return\<close>.\<close>

definition guard_returns :: "app_state \<Rightarrow> bool" where
  "guard_returns s = (trim (prompt s) = [] \<or> isLoading s)"

text \<open>Lines 125--128.\<close>

definition begin_events :: "event list" where
  "begin_events =
     [SetIsLoading True, SetError None, SetGeneratedVideoUrl None,
      SetLoadingMessage (LOADING_MESSAGES ! 0)]"

text \<open>Lines 133--148: the request, with the image only when both
  \<open>referenceImage.base64\<close> and \<open>referenceImage.file\<close> are truthy.\<close>

definition build_payload :: "app_state \<Rightarrow> payload" where
  "build_payload s =
     \<lparr>model = ''veo-3.1-fast-generate-preview'',
      payload_prompt = prompt s,
      config = \<lparr>numberOfVideos = 1,
                config_resolution = resolution s,
                config_aspectRatio = aspectRatio s\<rparr>,
      image =
        (case base64 (referenceImage s) of
           None \<Rightarrow> None
         | Some b \<Rightarrow>
             (if b = [] then None
              else (case ref_file (referenceImage s) of
                      None \<Rightarrow> None
                    | Some f \<Rightarrow> Some \<lparr>imageBytes = b, mimeType = file_type f\<rparr>)))\<rparr>"

text \<open>
  Lines 152--155: the poll loop. \<open>polls\<close> counts the polls made so far and \<open>log\<close> collects
  the effects. The result is the operation that ended the loop or the error a poll
  raised; \<open>None\<close> is a loop that never ends.
\<close>

definition is_done :: "operation \<Rightarrow> bool" where
  "is_done opn = (op_done opn = Some True)"

partial_function (option) poll_loop ::
  "env \<Rightarrow> nat \<Rightarrow> operation \<Rightarrow> event list \<Rightarrow> ((js_error + operation) \<times> event list) option"
where
  "poll_loop e polls opn log =
     (if is_done opn then Some (Inr opn, log)
      else (case getVideosOperation e polls opn of
              Inl err \<Rightarrow> Some (Inl err, log @ [SetTimeout 10000, GetVideosOperation opn])
            | Inr opn' \<Rightarrow>
                poll_loop e (Suc polls) opn'
                  (log @ [SetTimeout 10000, GetVideosOperation opn])))"

declare poll_loop.simps [code]

text \<open>Line 157: \<open>operation.response?.generatedVideos?.[0]?.video?.uri\<close>.\<close>

definition downloadLink :: "operation \<Rightarrow> string option" where
  "downloadLink opn =
     (case op_response opn of
        None \<Rightarrow> None
      | Some r \<Rightarrow>
          (case generatedVideos r of
             None \<Rightarrow> None
           | Some gvs \<Rightarrow>
               (case index_opt gvs 0 of
                  None \<Rightarrow> None
                | Some gv \<Rightarrow>
                    (case video gv of
                       None \<Rightarrow> None
                     | Some v \<Rightarrow> uri v))))"

text \<open>Lines 157--170: what follows the loop. The result is the error thrown or the
  object URL of the video, with the effects performed.\<close>

definition fetch_result :: "env \<Rightarrow> operation \<Rightarrow> (js_error + string) \<times> event list" where
  "fetch_result e opn =
     (if \<not> truthy (downloadLink opn)
      then (Inl (Error (Some ''Video generation succeeded but no download link was found.'')), [])
      else
        (let url = template_text (downloadLink opn) @ ''&key='' @ template_text (API_KEY e)
         in case fetch e url of
              Inl err \<Rightarrow> (Inl err, [Fetch url])
            | Inr videoResponse \<Rightarrow>
                (if \<not> ok videoResponse
                 then (Inl (Error (Some (''Failed to fetch video data: '' @ statusText videoResponse))),
                       [Fetch url])
                 else (case body_blob videoResponse of
                         Inl err \<Rightarrow> (Inl err, [Fetch url, ReadBlob])
                       | Inr videoBlob \<Rightarrow>
                           (Inr (createObjectURL e (Inr videoBlob)),
                            [Fetch url, ReadBlob, CreateObjectURL (Inr videoBlob)])))))"

text \<open>Lines 131--170: the body of the \<open>try\<close>, for the state \<open>s\<close> the handler closed over.\<close>

definition try_body :: "env \<Rightarrow> app_state \<Rightarrow> ((js_error + string) \<times> event list) option" where
  "try_body e s =
     (case newGoogleGenAI e (API_KEY e) of
        Some err \<Rightarrow> Some (Inl err, [NewGoogleGenAI (API_KEY e)])
      | None \<Rightarrow>
          (case generateVideos e (build_payload s) of
             Inl err \<Rightarrow>
               Some (Inl err, [NewGoogleGenAI (API_KEY e), GenerateVideos (build_payload s)])
           | Inr opn \<Rightarrow>
               (case poll_loop e 0 opn
                       [NewGoogleGenAI (API_KEY e), GenerateVideos (build_payload s)] of
                  None \<Rightarrow> None
                | Some (Inl err, log) \<Rightarrow> Some (Inl err, log)
                | Some (Inr opn', log) \<Rightarrow>
                    Some (fst (fetch_result e opn'), log @ snd (fetch_result e opn')))))"

text \<open>Lines 172--179: the \<open>catch\<close> block.\<close>

definition error_text :: "js_error \<Rightarrow> string" where
  "error_text err =
     (case message err of
        None \<Rightarrow> ''An unknown error occurred.''
      | Some m \<Rightarrow> (if m = [] then ''An unknown error occurred.'' else m))"

definition catch_events :: "js_error \<Rightarrow> event list" where
  "catch_events err =
     ConsoleError #
     (if str_includes (error_text err) ''Requested entity was not found.''
      then [SetHasApiKey False,
            SetError (Some ''Your API key is invalid or not found. Please select a valid key and try again.'')]
      else [SetError (Some (error_text err))])"

text \<open>Line 170 or lines 172--179, then the \<open>finally\<close> block (line 181).\<close>

definition finish_events :: "js_error + string \<Rightarrow> event list" where
  "finish_events outcome =
     (case outcome of
        Inl err \<Rightarrow> catch_events err
      | Inr videoUrl \<Rightarrow> [SetGeneratedVideoUrl (Some videoUrl)])
     @ [SetIsLoading False]"

text \<open>The handler: the effects of one call, in order. \<open>None\<close> is an attempt whose poll
  loop never ends; it has performed \<open>begin_events\<close> and keeps polling.\<close>

definition handleGenerateVideo :: "env \<Rightarrow> app_state \<Rightarrow> event list option" where
  "handleGenerateVideo e s =
     (if guard_returns s then Some []
      else (case try_body e s of
              None \<Rightarrow> None
            | Some (outcome, calls) \<Rightarrow>
                Some (begin_events @ calls @ finish_events outcome)))"

section \<open>The service as the poll loop sees it\<close>

text \<open>
  \<open>response_after e n opn k\<close> is what the loop holds after \<open>k\<close> polls, when it starts with
  the operation \<open>opn\<close> and \<open>n\<close> polls have been made before: the operation itself for
  \<open>k = 0\<close> (the answer to the submission), then the answer to each poll of the answer
  before it. An error stays.
\<close>

primrec response_after :: "env \<Rightarrow> nat \<Rightarrow> operation \<Rightarrow> nat \<Rightarrow> js_error + operation" where
  "response_after e n opn 0 = Inr opn"
| "response_after e n opn (Suc k) =
     (case getVideosOperation e n opn of
        Inl err \<Rightarrow> Inl err
      | Inr opn' \<Rightarrow> response_after e (Suc n) opn' k)"

text \<open>The effects of iteration \<open>j\<close> of the loop: a delay of 10000 ms, then the poll of the
  operation held after \<open>j\<close> polls.\<close>

definition iteration_calls :: "env \<Rightarrow> nat \<Rightarrow> operation \<Rightarrow> nat \<Rightarrow> event list" where
  "iteration_calls e n opn j =
     (case response_after e n opn j of
        Inl err \<Rightarrow> []
      | Inr held \<Rightarrow> [SetTimeout 10000, GetVideosOperation held])"

definition poll_calls :: "env \<Rightarrow> nat \<Rightarrow> operation \<Rightarrow> nat \<Rightarrow> event list" where
  "poll_calls e n opn k = concat (map (iteration_calls e n opn) [0..<k])"

text \<open>
  The loop ends after \<open>k\<close> polls with \<open>result\<close>: the answers before the \<open>k\<close>-th are
  operations that are not done, and the \<open>k\<close>-th is either an operation that is done
  (the loop condition fails) or an error raised by the \<open>k\<close>-th poll (the loop is left by
  the exception).
\<close>

definition loop_ends_after ::
  "env \<Rightarrow> nat \<Rightarrow> operation \<Rightarrow> nat \<Rightarrow> js_error + operation \<Rightarrow> bool" where
  "loop_ends_after e n opn k result =
     ((\<forall>j<k. \<exists>held. response_after e n opn j = Inr held \<and> \<not> is_done held) \<and>
      (case result of
         Inr final \<Rightarrow> response_after e n opn k = Inr final \<and> is_done final
       | Inl err \<Rightarrow> 0 < k \<and> response_after e n opn k = Inl err))"

section \<open>The component over time\<close>

text \<open>
  A generation attempt spans several turns of the event loop; other handlers run in
  between. The controller holds the current state and the attempts that have begun and
  not ended, each with the state its handler closed over. An attempt begins with lines
  125--128 and ends with the \<open>catch\<close> and \<open>finally\<close> blocks, whose setters act on the
  state of that moment. Each handler reads the state of the latest render.
\<close>

record controller =
  st :: app_state
  in_flight :: "app_state list"

datatype action =
    Click_generate
  | Attempt_ends nat
  | Click_select_key
  | Pick_image "file_t option"
  | Click_remove_image
  | Edit_prompt string
  | Choose_aspectRatio aspect_ratio
  | Choose_resolution resolution_t
  | Interval_fires nat

fun perform :: "env \<Rightarrow> controller \<Rightarrow> action \<Rightarrow> controller" where
  "perform e c Click_generate =
     (if guard_returns (st c) then c
      else \<lparr>st = apply_events (st c) begin_events, in_flight = in_flight c @ [st c]\<rparr>)"
| "perform e c (Attempt_ends i) =
     (if i < length (in_flight c)
      then (case try_body e (in_flight c ! i) of
              None \<Rightarrow> c
            | Some (outcome, calls) \<Rightarrow>
                \<lparr>st = apply_events (st c) (finish_events outcome),
                 in_flight = take i (in_flight c) @ drop (Suc i) (in_flight c)\<rparr>)
      else c)"
| "perform e c Click_select_key = c\<lparr>st := apply_events (st c) (handleSelectKey e)\<rparr>"
| "perform e c (Pick_image picked) =
     c\<lparr>st := apply_events (st c) (handleImageChange e (st c) picked)\<rparr>"
| "perform e c Click_remove_image = c\<lparr>st := apply_events (st c) (removeImage (st c))\<rparr>"
| "perform e c (Edit_prompt p) = c\<lparr>st := apply_events (st c) [SetPrompt p]\<rparr>"
| "perform e c (Choose_aspectRatio a) = c\<lparr>st := apply_events (st c) [SetAspectRatio a]\<rparr>"
| "perform e c (Choose_resolution r) = c\<lparr>st := apply_events (st c) [SetResolution r]\<rparr>"
| "perform e c (Interval_fires k) =
     (if isLoading (st c)
      then c\<lparr>st := apply_events (st c)
                    [SetLoadingMessage (LOADING_MESSAGES ! (k mod length LOADING_MESSAGES))]\<rparr>
      else c)"

inductive reachable :: "controller \<Rightarrow> bool" where
  first_render: "reachable \<lparr>st = initial_state, in_flight = []\<rparr>"
| mounted: "reachable \<lparr>st = apply_events initial_state (on_mount e), in_flight = []\<rparr>"
| step: "reachable c \<Longrightarrow> reachable (perform e c a)"

text \<open>At most one attempt is in flight, and one is exactly when the busy flag is set.\<close>

definition one_at_a_time :: "controller \<Rightarrow> bool" where
  "one_at_a_time c =
     (length (in_flight c) \<le> 1 \<and> (isLoading (st c) \<longleftrightarrow> in_flight c \<noteq> []))"

text \<open>At most one of the error message and the video handle is set.\<close>

definition exclusive :: "app_state \<Rightarrow> bool" where
  "exclusive s = (error s = None \<or> generatedVideoUrl s = None)"

section \<open>Concrete environments and inputs\<close>

definition pending_operation :: operation where
  "pending_operation = \<lparr>op_name = ''operations/1'', op_done = Some False, op_response = None\<rparr>"

definition finished_response :: videos_response where
  "finished_response =
     \<lparr>generatedVideos = Some [\<lparr>video = Some \<lparr>uri = Some ''https://host/v1?alt=media''\<rparr>\<rparr>]\<rparr>"

text \<open>A service that accepts the job and reports it done, with a result, at the first
  poll; the download succeeds.\<close>

definition demo_env :: env where
  "demo_env =
     \<lparr>API_KEY = Some ''key'',
      newGoogleGenAI = (\<lambda>k. None),
      generateVideos = (\<lambda>p. Inr pending_operation),
      getVideosOperation =
        (\<lambda>n opn. Inr (opn\<lparr>op_done := Some True, op_response := Some finished_response\<rparr>)),
      fetch = (\<lambda>u. Inr \<lparr>ok = True, statusText = ''OK'',
                          body_blob = Inr \<lparr>blob_type = ''video/mp4'', blob_bytes = [0, 1]\<rparr>\<rparr>),
      createObjectURL = (\<lambda>b. ''blob:app/1''),
      readAsDataURL = (\<lambda>f. Loaded_string (dataURL f)),
      aistudio = Some \<lparr>hasSelectedApiKey = Inr True, openSelectKey = None\<rparr>\<rparr>"

text \<open>A service that reports the job done from its poll number \<open>N\<close> on (counting from 0)
  and not before.\<close>

definition slow_env :: "nat \<Rightarrow> env" where
  "slow_env N =
     demo_env\<lparr>getVideosOperation := (\<lambda>n opn. Inr (opn\<lparr>op_done := Some (N \<le> n)\<rparr>))\<rparr>"

text \<open>A service that never reports the job done.\<close>

definition stalled_env :: env where
  "stalled_env = demo_env\<lparr>getVideosOperation := (\<lambda>n opn. Inr opn)\<rparr>"

definition finished_operation :: operation where
  "finished_operation =
     pending_operation\<lparr>op_done := Some True, op_response := Some finished_response\<rparr>"

text \<open>The job is done at the first poll, and the answer carries no response.\<close>

definition no_link_env :: env where
  "no_link_env =
     demo_env\<lparr>getVideosOperation := (\<lambda>n opn. Inr (opn\<lparr>op_done := Some True\<rparr>))\<rparr>"

text \<open>The submission is refused.\<close>

definition refusing_env :: "js_error \<Rightarrow> env" where
  "refusing_env err = demo_env\<lparr>generateVideos := (\<lambda>p. Inl err)\<rparr>"

text \<open>The first poll fails.\<close>

definition poll_failing_env :: env where
  "poll_failing_env =
     demo_env\<lparr>getVideosOperation := (\<lambda>n opn. Inl (Error (Some ''Network error'')))\<rparr>"

text \<open>The download is answered with a status that is not a success.\<close>

definition fetch_status_env :: "string \<Rightarrow> env" where
  "fetch_status_env text =
     demo_env\<lparr>fetch := (\<lambda>u. Inr \<lparr>ok = False, statusText = text,
                                  body_blob = Inr \<lparr>blob_type = [], blob_bytes = []\<rparr>\<rparr>)\<rparr>"

definition ten_byte_png :: file_t where
  "ten_byte_png =
     \<lparr>file_name = ''ref.png'', file_type = ''image/png'',
      file_bytes = [1, 2, 3, 4, 5, 6, 7, 8, 9, 10]\<rparr>"

definition empty_png :: file_t where
  "empty_png = \<lparr>file_name = ''empty.png'', file_type = ''image/png'', file_bytes = []\<rparr>"

definition ready_state :: app_state where
  "ready_state = initial_state\<lparr>hasApiKey := True\<rparr>"

text \<open>The state after the user has picked the ten-byte image.\<close>

definition with_image_state :: app_state where
  "with_image_state =
     apply_events ready_state (handleImageChange demo_env ready_state (Some ten_byte_png))"

text \<open>The controller after the first click on the generate button.\<close>

definition after_first_click :: controller where
  "after_first_click = perform demo_env \<lparr>st = initial_state, in_flight = []\<rparr> Click_generate"

definition busy_state :: app_state where
  "busy_state = initial_state\<lparr>isLoading := True\<rparr>"

definition blank_prompt_state :: app_state where
  "blank_prompt_state = initial_state\<lparr>prompt := ''  ''\<rparr>"

section \<open>Basic facts\<close>

lemma apply_events_Nil [simp]: "apply_events s [] = s"
  by (simp add: apply_events_def)

lemma apply_events_Cons [simp]: "apply_events s (ev # evs) = apply_events (apply_event s ev) evs"
  by (simp add: apply_events_def)

lemma apply_events_append [simp]:
  "apply_events s (xs @ ys) = apply_events (apply_events s xs) ys"
  by (simp add: apply_events_def)

lemma apply_event_call: "\<not> is_setter ev \<Longrightarrow> apply_event s ev = s"
  by (cases ev) simp_all

lemma apply_events_calls: "\<forall>ev\<in>set evs. \<not> is_setter ev \<Longrightarrow> apply_events s evs = s"
  by (induction evs arbitrary: s) (simp_all add: apply_event_call)

lemma trim_empty_iff: "trim s = [] \<longleftrightarrow> (\<forall>c\<in>set s. is_white_space c)"
proof -
  have "trim s = [] \<longleftrightarrow> (\<forall>c\<in>set (dropWhile is_white_space s). is_white_space c)"
    by (simp add: trim_def dropWhile_eq_Nil_conv)
  also have "\<dots> \<longleftrightarrow> (\<forall>c\<in>set s. is_white_space c)"
  proof
    assume rest: "\<forall>c\<in>set (dropWhile is_white_space s). is_white_space c"
    have "set s = set (takeWhile is_white_space s) \<union> set (dropWhile is_white_space s)"
      by (metis set_append takeWhile_dropWhile_id)
    with rest show "\<forall>c\<in>set s. is_white_space c"
      by (auto dest: set_takeWhileD)
  next
    assume "\<forall>c\<in>set s. is_white_space c"
    then show "\<forall>c\<in>set (dropWhile is_white_space s). is_white_space c"
      by (auto dest: set_dropWhileD)
  qed
  finally show ?thesis .
qed

lemma starts_with_iff: "starts_with s pat \<longleftrightarrow> (\<exists>suf. s = pat @ suf)"
  by (induction s pat rule: starts_with.induct) auto

lemma str_includes_iff: "str_includes s pat \<longleftrightarrow> (\<exists>pre suf. s = pre @ pat @ suf)"
proof (induction s)
  case Nil
  then show ?case by (auto simp: starts_with_iff)
next
  case (Cons c cs)
  show ?case
  proof
    assume "str_includes (c # cs) pat"
    then consider "starts_with (c # cs) pat" | "str_includes cs pat" by auto
    then show "\<exists>pre suf. c # cs = pre @ pat @ suf"
    proof cases
      case 1
      then obtain suf where "c # cs = [] @ pat @ suf" by (auto simp: starts_with_iff)
      then show ?thesis by blast
    next
      case 2
      with Cons.IH obtain pre suf where "cs = pre @ pat @ suf" by blast
      then have "c # cs = (c # pre) @ pat @ suf" by simp
      then show ?thesis by blast
    qed
  next
    assume "\<exists>pre suf. c # cs = pre @ pat @ suf"
    then obtain pre suf where eq: "c # cs = pre @ pat @ suf" by blast
    show "str_includes (c # cs) pat"
    proof (cases pre)
      case Nil
      with eq have "starts_with (c # cs) pat" by (auto simp: starts_with_iff)
      then show ?thesis by simp
    next
      case (Cons d pre')
      with eq have "cs = pre' @ pat @ suf" by simp
      with Cons.IH have "str_includes cs pat" by blast
      then show ?thesis by simp
    qed
  qed
qed

lemma no_link_message_kept:
  "\<not> str_includes ''Video generation succeeded but no download link was found.''
       ''Requested entity was not found.''"
  by simp

lemma unknown_message_kept:
  "\<not> str_includes ''An unknown error occurred.'' ''Requested entity was not found.''"
  by simp

lemma fetch_message_includes:
  "str_includes (''Failed to fetch video data: '' @ t) ''Requested entity was not found.''
   \<longleftrightarrow> str_includes t ''Requested entity was not found.''"
  by simp

section \<open>The poll loop\<close>

lemma poll_calls_0: "poll_calls e n opn 0 = []"
  by (simp add: poll_calls_def)

lemma poll_calls_1: "poll_calls e n opn (Suc 0) = [SetTimeout 10000, GetVideosOperation opn]"
  by (simp add: poll_calls_def iteration_calls_def)

lemma poll_calls_Suc_Inr:
  assumes "getVideosOperation e n opn = Inr opn'"
  shows "poll_calls e n opn (Suc k) =
         [SetTimeout 10000, GetVideosOperation opn] @ poll_calls e (Suc n) opn' k"
proof -
  have upt: "[0..<Suc k] = 0 # map Suc [0..<k]"
    by (simp add: upt_conv_Cons map_Suc_upt del: upt_Suc)
  have first: "iteration_calls e n opn 0 = [SetTimeout 10000, GetVideosOperation opn]"
    by (simp add: iteration_calls_def)
  have later: "\<And>j. iteration_calls e n opn (Suc j) = iteration_calls e (Suc n) opn' j"
    using assms by (simp add: iteration_calls_def)
  show ?thesis
    unfolding poll_calls_def upt by (simp add: first later comp_def)
qed

lemma poll_calls_events:
  "ev \<in> set (poll_calls e n opn k) \<Longrightarrow>
   ev = SetTimeout 10000 \<or> (\<exists>held. ev = GetVideosOperation held)"
  by (auto simp: poll_calls_def iteration_calls_def split: sum.splits)

lemma poll_calls_not_setter: "\<forall>ev\<in>set (poll_calls e n opn k). \<not> is_setter ev"
  using poll_calls_events by fastforce

text \<open>While the loop goes on, each iteration contributes one delay and one poll.\<close>

lemma poll_calls_delays:
  assumes "\<forall>j<k. \<exists>held. response_after e n opn j = Inr held"
  shows "count_list (poll_calls e n opn k) (SetTimeout 10000) = k \<and>
         length (poll_calls e n opn k) = 2 * k"
  using assms
proof (induction k)
  case 0
  then show ?case by (simp add: poll_calls_def)
next
  case (Suc k)
  then obtain held where "response_after e n opn k = Inr held"
    by blast
  moreover from Suc have
    "count_list (poll_calls e n opn k) (SetTimeout 10000) = k \<and>
     length (poll_calls e n opn k) = 2 * k"
    by simp
  ultimately show ?case
    by (simp add: poll_calls_def iteration_calls_def)
qed

lemma poll_loop_ends:
  "loop_ends_after e n opn k result \<Longrightarrow>
   poll_loop e n opn log = Some (result, log @ poll_calls e n opn k)"
proof (induction k arbitrary: n opn log)
  case 0
  then have "result = Inr opn" "is_done opn"
    by (auto simp: loop_ends_after_def split: sum.splits)
  then show ?case
    by (subst poll_loop.simps) (simp add: poll_calls_0)
next
  case (Suc k)
  from Suc.prems have nd: "\<not> is_done opn"
    by (auto simp: loop_ends_after_def)
  show ?case
  proof (cases "getVideosOperation e n opn")
    case (Inl err)
    have k0: "k = 0"
    proof (rule ccontr)
      assume "k \<noteq> 0"
      then have "Suc 0 < Suc k" by simp
      with Suc.prems obtain held where "response_after e n opn (Suc 0) = Inr held"
        unfolding loop_ends_after_def by blast
      with Inl show False by simp
    qed
    with Suc.prems Inl have "result = Inl err"
      by (auto simp: loop_ends_after_def split: sum.splits)
    with Inl nd k0 show ?thesis
      by (subst poll_loop.simps) (simp add: poll_calls_1)
  next
    case (Inr opn')
    have "loop_ends_after e (Suc n) opn' k result"
      unfolding loop_ends_after_def
    proof (intro conjI allI impI)
      fix j assume "j < k"
      then have "Suc j < Suc k" by simp
      with Suc.prems obtain held
        where "response_after e n opn (Suc j) = Inr held" "\<not> is_done held"
        unfolding loop_ends_after_def by blast
      with Inr show "\<exists>held. response_after e (Suc n) opn' j = Inr held \<and> \<not> is_done held"
        by simp
    next
      show "case result of
              Inl err \<Rightarrow> 0 < k \<and> response_after e (Suc n) opn' k = Inl err
            | Inr final \<Rightarrow> response_after e (Suc n) opn' k = Inr final \<and> is_done final"
        using Suc.prems Inr
        by (cases k) (auto simp: loop_ends_after_def split: sum.splits)
    qed
    from Suc.IH [OF this]
    have "poll_loop e (Suc n) opn' (log @ [SetTimeout 10000, GetVideosOperation opn]) =
          Some (result,
            (log @ [SetTimeout 10000, GetVideosOperation opn]) @ poll_calls e (Suc n) opn' k)" .
    with Inr nd show ?thesis
      by (subst poll_loop.simps) (simp add: poll_calls_Suc_Inr)
  qed
qed

lemma poll_loop_Some_ends:
  assumes "poll_loop e n opn log = Some y"
  shows "\<exists>k. loop_ends_after e n opn k (fst y) \<and> snd y = log @ poll_calls e n opn k"
proof (rule poll_loop.raw_induct
    [where P = "\<lambda>e n opn log y.
       \<exists>k. loop_ends_after e n opn k (fst y) \<and> snd y = log @ poll_calls e n opn k",
     OF _ assms], goal_cases)
  case (1 f e polls opn log y)
  note IH = 1(1) and step = 1(2)
  show ?case
  proof (cases "is_done opn")
    case True
    with step have "y = (Inr opn, log)" by simp
    with True
    have "loop_ends_after e polls opn 0 (fst y) \<and> snd y = log @ poll_calls e polls opn 0"
      by (simp add: loop_ends_after_def poll_calls_0)
    then show ?thesis by blast
  next
    case False
    show ?thesis
    proof (cases "getVideosOperation e polls opn")
      case (Inl err)
      with False step have "y = (Inl err, log @ [SetTimeout 10000, GetVideosOperation opn])"
        by simp
      with False Inl
      have "loop_ends_after e polls opn (Suc 0) (fst y) \<and>
            snd y = log @ poll_calls e polls opn (Suc 0)"
        by (simp add: loop_ends_after_def poll_calls_1)
      then show ?thesis by blast
    next
      case (Inr opn')
      with False step
      have "f e (Suc polls) opn' (log @ [SetTimeout 10000, GetVideosOperation opn]) = Some y"
        by simp
      from IH [OF this] obtain k where
        k: "loop_ends_after e (Suc polls) opn' k (fst y)"
           "snd y = (log @ [SetTimeout 10000, GetVideosOperation opn])
                    @ poll_calls e (Suc polls) opn' k"
        by blast
      have "loop_ends_after e polls opn (Suc k) (fst y)"
        unfolding loop_ends_after_def
      proof (intro conjI allI impI)
        fix j assume "j < Suc k"
        show "\<exists>held. response_after e polls opn j = Inr held \<and> \<not> is_done held"
        proof (cases j)
          case 0
          with False show ?thesis by simp
        next
          case (Suc j')
          with \<open>j < Suc k\<close> have "j' < k" by simp
          with k(1) Inr Suc show ?thesis
            by (simp add: loop_ends_after_def)
        qed
      next
        show "case fst y of
                Inl err \<Rightarrow> 0 < Suc k \<and> response_after e polls opn (Suc k) = Inl err
              | Inr final \<Rightarrow> response_after e polls opn (Suc k) = Inr final \<and> is_done final"
          using k(1) Inr by (auto simp: loop_ends_after_def split: sum.splits)
      qed
      moreover have "snd y = log @ poll_calls e polls opn (Suc k)"
        using k(2) Inr by (simp add: poll_calls_Suc_Inr)
      ultimately show ?thesis by blast
    qed
  qed
qed

lemma poll_loop_iff:
  "poll_loop e n opn log = Some (result, log') \<longleftrightarrow>
   (\<exists>k. loop_ends_after e n opn k result \<and> log' = log @ poll_calls e n opn k)"
  using poll_loop_ends [of e n opn _ result log]
    poll_loop_Some_ends [of e n opn log "(result, log')"]
  by auto

lemma poll_loop_never_ends:
  assumes "\<forall>k. \<exists>held. response_after e n opn k = Inr held \<and> \<not> is_done held"
  shows "poll_loop e n opn log = None"
proof (rule ccontr)
  assume "poll_loop e n opn log \<noteq> None"
  then obtain result log' where "poll_loop e n opn log = Some (result, log')"
    by auto
  then obtain k where "loop_ends_after e n opn k result"
    by (auto simp: poll_loop_iff)
  moreover from assms obtain held
    where "response_after e n opn k = Inr held" "\<not> is_done held"
    by blast
  ultimately show False
    by (auto simp: loop_ends_after_def split: sum.splits)
qed

text \<open>The slow service: not done before poll number \<open>N\<close>, done at it.\<close>

lemma slow_env_response:
  "response_after (slow_env N) n opn (Suc k) = Inr (opn\<lparr>op_done := Some (N \<le> n + k)\<rparr>)"
  by (induction k arbitrary: n opn) (simp_all add: slow_env_def)

lemma slow_env_ends:
  "loop_ends_after (slow_env N) 0 pending_operation (Suc N)
     (Inr (pending_operation\<lparr>op_done := Some True\<rparr>))"
proof -
  have "\<exists>held. response_after (slow_env N) 0 pending_operation j = Inr held \<and> \<not> is_done held"
    if "j < Suc N" for j
  proof (cases j)
    case 0
    then show ?thesis by (simp add: is_done_def pending_operation_def)
  next
    case (Suc i)
    with that show ?thesis
      by (simp add: slow_env_response is_done_def del: response_after.simps)
  qed
  then show ?thesis
    by (simp add: loop_ends_after_def slow_env_response is_done_def del: response_after.simps)
qed

lemma stalled_env_response:
  "response_after stalled_env n pending_operation k = Inr pending_operation"
  by (induction k arbitrary: n) (simp_all add: stalled_env_def)

text \<open>
  C5. The poll loop repeats while the operation is not done; each iteration waits
  10000 ms and then polls again. With no log to start from, the loop ends its
  iteration after \<open>k\<close> polls exactly when the answers before the \<open>k\<close>-th are operations
  that are not done and the \<open>k\<close>-th answer (the answer to the submission for \<open>k = 0\<close>) is
  an operation that is done; its effects are then \<open>k\<close> delays of 10000 ms, each followed
  by a poll. The only other way out of the loop is the exception of a poll that fails.
  When every answer is an operation that is not done the loop never returns. There is
  no bound on the iterations: for every \<open>N\<close> a service makes the loop poll \<open>N + 1\<close> times
  before it returns.
\<close>

theorem poll_loop_runs_until_done:
  "(poll_loop e 0 opn [] = Some (Inr final, calls) \<longleftrightarrow>
      (\<exists>k. (\<forall>j<k. \<exists>held. response_after e 0 opn j = Inr held \<and> \<not> is_done held)
           \<and> response_after e 0 opn k = Inr final \<and> is_done final
           \<and> calls = poll_calls e 0 opn k
           \<and> count_list calls (SetTimeout 10000) = k \<and> length calls = 2 * k))
   \<and> (poll_loop e 0 opn [] = Some (Inl err, calls) \<longleftrightarrow>
      (\<exists>k. (\<forall>j\<le>k. \<exists>held. response_after e 0 opn j = Inr held \<and> \<not> is_done held)
           \<and> response_after e 0 opn (Suc k) = Inl err
           \<and> calls = poll_calls e 0 opn (Suc k)))
   \<and> ((\<forall>k. \<exists>held. response_after e 0 opn k = Inr held \<and> \<not> is_done held) \<longrightarrow>
        poll_loop e 0 opn [] = None)
   \<and> (\<exists>final' calls'.
        poll_loop (slow_env N) 0 pending_operation [] = Some (Inr final', calls') \<and>
        count_list calls' (SetTimeout 10000) = Suc N)"
proof (intro conjI impI)
  show "poll_loop e 0 opn [] = Some (Inr final, calls) \<longleftrightarrow>
      (\<exists>k. (\<forall>j<k. \<exists>held. response_after e 0 opn j = Inr held \<and> \<not> is_done held)
           \<and> response_after e 0 opn k = Inr final \<and> is_done final
           \<and> calls = poll_calls e 0 opn k
           \<and> count_list calls (SetTimeout 10000) = k \<and> length calls = 2 * k)"
    (is "?L \<longleftrightarrow> ?R")
  proof
    assume ?L
    then obtain k where k: "loop_ends_after e 0 opn k (Inr final)"
      "calls = poll_calls e 0 opn k"
      by (auto simp: poll_loop_iff)
    from k(1) have "\<forall>j<k. \<exists>held. response_after e 0 opn j = Inr held"
      unfolding loop_ends_after_def by blast
    from poll_calls_delays [OF this] k show ?R
      unfolding loop_ends_after_def by auto
  next
    assume ?R
    then obtain k where "loop_ends_after e 0 opn k (Inr final)" "calls = poll_calls e 0 opn k"
      unfolding loop_ends_after_def by auto
    then show ?L by (auto simp: poll_loop_iff)
  qed
next
  show "poll_loop e 0 opn [] = Some (Inl err, calls) \<longleftrightarrow>
      (\<exists>k. (\<forall>j\<le>k. \<exists>held. response_after e 0 opn j = Inr held \<and> \<not> is_done held)
           \<and> response_after e 0 opn (Suc k) = Inl err
           \<and> calls = poll_calls e 0 opn (Suc k))"
    (is "?L \<longleftrightarrow> ?R")
  proof
    assume ?L
    then obtain k' where k': "loop_ends_after e 0 opn k' (Inl err)"
      "calls = poll_calls e 0 opn k'"
      by (auto simp: poll_loop_iff)
    then obtain k where "k' = Suc k"
      by (cases k') (auto simp: loop_ends_after_def)
    with k' show ?R
      unfolding loop_ends_after_def by (auto simp: less_Suc_eq_le)
  next
    assume ?R
    then obtain k where
      "loop_ends_after e 0 opn (Suc k) (Inl err)" "calls = poll_calls e 0 opn (Suc k)"
      unfolding loop_ends_after_def by (auto simp: less_Suc_eq_le)
    then show ?L by (auto simp: poll_loop_iff)
  qed
next
  assume "\<forall>k. \<exists>held. response_after e 0 opn k = Inr held \<and> \<not> is_done held"
  then show "poll_loop e 0 opn [] = None"
    by (rule poll_loop_never_ends)
next
  let ?final = "pending_operation\<lparr>op_done := Some True\<rparr>"
  have ends: "loop_ends_after (slow_env N) 0 pending_operation (Suc N) (Inr ?final)"
    by (rule slow_env_ends)
  then have "poll_loop (slow_env N) 0 pending_operation [] =
             Some (Inr ?final, [] @ poll_calls (slow_env N) 0 pending_operation (Suc N))"
    by (rule poll_loop_ends)
  moreover from ends
  have "\<forall>j<Suc N. \<exists>held. response_after (slow_env N) 0 pending_operation j = Inr held"
    unfolding loop_ends_after_def by blast
  then have "count_list (poll_calls (slow_env N) 0 pending_operation (Suc N))
               (SetTimeout 10000) = Suc N"
    using poll_calls_delays by blast
  ultimately show "\<exists>final' calls'.
      poll_loop (slow_env N) 0 pending_operation [] = Some (Inr final', calls') \<and>
      count_list calls' (SetTimeout 10000) = Suc N"
    by simp
qed

theorem poll_loop_runs_until_done_witness:
  "response_after demo_env 0 pending_operation 0 = Inr pending_operation
   \<and> \<not> is_done pending_operation
   \<and> response_after demo_env 0 pending_operation 1 = Inr finished_operation
   \<and> is_done finished_operation
   \<and> poll_loop demo_env 0 pending_operation [] =
       Some (Inr finished_operation, [SetTimeout 10000, GetVideosOperation pending_operation])
   \<and> response_after poll_failing_env 0 pending_operation 1 = Inl (Error (Some ''Network error''))
   \<and> poll_loop poll_failing_env 0 pending_operation [] =
       Some (Inl (Error (Some ''Network error'')),
             [SetTimeout 10000, GetVideosOperation pending_operation])
   \<and> (\<forall>k. \<exists>held. response_after stalled_env 0 pending_operation k = Inr held
            \<and> \<not> is_done held)
   \<and> poll_loop stalled_env 0 pending_operation [] = None"
proof -
  have r0: "response_after demo_env 0 pending_operation 0 = Inr pending_operation"
    "response_after poll_failing_env 0 pending_operation 0 = Inr pending_operation"
    by simp_all
  have nd: "\<not> is_done pending_operation"
    by (simp add: is_done_def pending_operation_def)
  have r1: "response_after demo_env 0 pending_operation 1 = Inr finished_operation"
    by (simp add: demo_env_def finished_operation_def)
  have d1: "is_done finished_operation"
    by (simp add: is_done_def finished_operation_def)
  have f1: "response_after poll_failing_env 0 pending_operation (Suc 0) =
            Inl (Error (Some ''Network error''))"
    by (simp add: poll_failing_env_def)
  have calls: "poll_calls demo_env 0 pending_operation 1 =
               [SetTimeout 10000, GetVideosOperation pending_operation]"
    "poll_calls poll_failing_env 0 pending_operation (Suc 0) =
               [SetTimeout 10000, GetVideosOperation pending_operation]"
    by (simp_all add: poll_calls_def iteration_calls_def)
  have stalls: "\<forall>k. \<exists>held. response_after stalled_env 0 pending_operation k = Inr held
                  \<and> \<not> is_done held"
    using nd by (simp add: stalled_env_response)
  let ?calls = "[SetTimeout 10000, GetVideosOperation pending_operation]"
  note run = poll_loop_runs_until_done
    [where e = demo_env and opn = pending_operation and final = finished_operation
       and calls = ?calls]
  note fail = poll_loop_runs_until_done
    [where e = poll_failing_env and opn = pending_operation
       and err = "Error (Some ''Network error'')" and calls = ?calls]
  note stall = poll_loop_runs_until_done
    [where e = stalled_env and opn = pending_operation]
  have "\<exists>k. (\<forall>j<k. \<exists>held. response_after demo_env 0 pending_operation j = Inr held
                  \<and> \<not> is_done held)
           \<and> response_after demo_env 0 pending_operation k = Inr finished_operation
           \<and> is_done finished_operation
           \<and> ?calls = poll_calls demo_env 0 pending_operation k
           \<and> count_list ?calls (SetTimeout 10000) = k \<and> length ?calls = 2 * k"
    using r0(1) nd r1 d1 calls(1) by (intro exI [of _ 1]) simp
  with run have 1: "poll_loop demo_env 0 pending_operation [] =
      Some (Inr finished_operation, ?calls)"
    by blast
  have "\<exists>k. (\<forall>j\<le>k. \<exists>held. response_after poll_failing_env 0 pending_operation j = Inr held
                  \<and> \<not> is_done held)
           \<and> response_after poll_failing_env 0 pending_operation (Suc k) =
               Inl (Error (Some ''Network error''))
           \<and> ?calls = poll_calls poll_failing_env 0 pending_operation (Suc k)"
    using r0(2) nd f1 calls(2) by (intro exI [of _ 0]) simp
  with fail have 2: "poll_loop poll_failing_env 0 pending_operation [] =
      Some (Inl (Error (Some ''Network error'')), ?calls)"
    by blast
  from stall stalls have 3: "poll_loop stalled_env 0 pending_operation [] = None"
    by blast
  from r0(1) nd r1 d1 1 f1 2 stalls 3 show ?thesis
    by simp
qed

section \<open>One generation attempt\<close>

lemma submitted_payloads_append [simp]:
  "submitted_payloads (xs @ ys) = submitted_payloads xs @ submitted_payloads ys"
  by (simp add: submitted_payloads_def)

lemma fetched_urls_append [simp]: "fetched_urls (xs @ ys) = fetched_urls xs @ fetched_urls ys"
  by (simp add: fetched_urls_def)

lemma surfaced_errors_append [simp]:
  "surfaced_errors (xs @ ys) = surfaced_errors xs @ surfaced_errors ys"
  by (simp add: surfaced_errors_def)

lemma poll_calls_readings [simp]:
  "submitted_payloads (poll_calls e n opn k) = []"
  "fetched_urls (poll_calls e n opn k) = []"
  "surfaced_errors (poll_calls e n opn k) = []"
  by (auto simp: submitted_payloads_def fetched_urls_def surfaced_errors_def
      dest!: poll_calls_events)

lemma surfaced_errors_calls: "\<forall>ev\<in>set evs. \<not> is_setter ev \<Longrightarrow> surfaced_errors evs = []"
proof (induction evs)
  case Nil
  then show ?case by (simp add: surfaced_errors_def)
next
  case (Cons ev evs)
  then have "\<not> is_setter ev" and rest: "surfaced_errors evs = []" by simp_all
  from \<open>\<not> is_setter ev\<close> have "surfaced_errors [ev] = []"
    by (cases ev) (simp_all add: surfaced_errors_def)
  with rest show ?case
    using surfaced_errors_append [of "[ev]" evs] by simp
qed

lemma fetch_result_calls:
  "\<forall>ev\<in>set (snd (fetch_result e opn)). \<not> is_setter ev"
  "submitted_payloads (snd (fetch_result e opn)) = []"
  "length (fetched_urls (snd (fetch_result e opn))) \<le> 1"
  by (auto simp: fetch_result_def Let_def submitted_payloads_def fetched_urls_def
      split: sum.splits)

text \<open>What the \<open>try\<close> block does, by the stage at which it ends.\<close>

lemma try_body_constructor_throws:
  "newGoogleGenAI e (API_KEY e) = Some err \<Longrightarrow>
   try_body e s = Some (Inl err, [NewGoogleGenAI (API_KEY e)])"
  by (simp add: try_body_def)

lemma try_body_submission_fails:
  "newGoogleGenAI e (API_KEY e) = None \<Longrightarrow> generateVideos e (build_payload s) = Inl err \<Longrightarrow>
   try_body e s =
     Some (Inl err, [NewGoogleGenAI (API_KEY e), GenerateVideos (build_payload s)])"
  by (simp add: try_body_def)

lemma try_body_poll_fails:
  assumes "newGoogleGenAI e (API_KEY e) = None"
    and "generateVideos e (build_payload s) = Inr opn"
    and "loop_ends_after e 0 opn k (Inl err)"
  shows "try_body e s =
     Some (Inl err, [NewGoogleGenAI (API_KEY e), GenerateVideos (build_payload s)]
                    @ poll_calls e 0 opn k)"
  using assms poll_loop_ends [OF assms(3)] by (simp add: try_body_def)

lemma try_body_loop_done:
  assumes "newGoogleGenAI e (API_KEY e) = None"
    and "generateVideos e (build_payload s) = Inr opn"
    and "loop_ends_after e 0 opn k (Inr final)"
  shows "try_body e s =
     Some (fst (fetch_result e final),
           [NewGoogleGenAI (API_KEY e), GenerateVideos (build_payload s)]
           @ poll_calls e 0 opn k @ snd (fetch_result e final))"
  using assms poll_loop_ends [OF assms(3)] by (simp add: try_body_def)

lemma try_body_never_ends:
  assumes "newGoogleGenAI e (API_KEY e) = None"
    and "generateVideos e (build_payload s) = Inr opn"
    and "\<forall>k. \<exists>held. response_after e 0 opn k = Inr held \<and> \<not> is_done held"
  shows "try_body e s = None"
  using assms poll_loop_never_ends [OF assms(3)] by (simp add: try_body_def)

lemma try_body_Some:
  assumes "try_body e s = Some (outcome, calls)"
  shows "(\<exists>err. newGoogleGenAI e (API_KEY e) = Some err \<and> outcome = Inl err \<and>
            calls = [NewGoogleGenAI (API_KEY e)])
       \<or> (\<exists>err. generateVideos e (build_payload s) = Inl err \<and> outcome = Inl err \<and>
            calls = [NewGoogleGenAI (API_KEY e), GenerateVideos (build_payload s)])
       \<or> (\<exists>opn k err. generateVideos e (build_payload s) = Inr opn \<and>
            loop_ends_after e 0 opn k (Inl err) \<and> outcome = Inl err \<and>
            calls = [NewGoogleGenAI (API_KEY e), GenerateVideos (build_payload s)]
                    @ poll_calls e 0 opn k)
       \<or> (\<exists>opn k final. generateVideos e (build_payload s) = Inr opn \<and>
            loop_ends_after e 0 opn k (Inr final) \<and> outcome = fst (fetch_result e final) \<and>
            calls = [NewGoogleGenAI (API_KEY e), GenerateVideos (build_payload s)]
                    @ poll_calls e 0 opn k @ snd (fetch_result e final))"
proof (cases "newGoogleGenAI e (API_KEY e)")
  case (Some err)
  with assms show ?thesis by (simp add: try_body_def)
next
  case None
  show ?thesis
  proof (cases "generateVideos e (build_payload s)")
    case (Inl err)
    with None assms show ?thesis by (simp add: try_body_def)
  next
    case (Inr opn)
    let ?pre = "[NewGoogleGenAI (API_KEY e), GenerateVideos (build_payload s)]"
    from None Inr assms obtain result log where
      loop: "poll_loop e 0 opn ?pre = Some (result, log)"
      by (auto simp: try_body_def split: option.splits)
    then obtain k where k: "loop_ends_after e 0 opn k result" "log = ?pre @ poll_calls e 0 opn k"
      by (auto simp: poll_loop_iff)
    show ?thesis
    proof (cases result)
      case (Inl err)
      with None Inr assms loop k have "outcome = Inl err" "calls = ?pre @ poll_calls e 0 opn k"
        by (simp_all add: try_body_def)
      with Inr Inl k(1) show ?thesis by blast
    next
      case final: (Inr final)
      with None Inr assms loop k have "outcome = fst (fetch_result e final)"
        "calls = ?pre @ poll_calls e 0 opn k @ snd (fetch_result e final)"
        by (simp_all add: try_body_def)
      with Inr final k(1) show ?thesis by blast
    qed
  qed
qed

lemma try_body_calls:
  assumes "try_body e s = Some (outcome, calls)"
  shows "\<forall>ev\<in>set calls. \<not> is_setter ev"
    and "length (submitted_payloads calls) \<le> 1"
    and "length (fetched_urls calls) \<le> 1"
    and "\<forall>p. GenerateVideos p \<in> set calls \<longrightarrow> p = build_payload s"
    and "HasSelectedApiKey \<notin> set calls"
proof -
  let ?pre = "[NewGoogleGenAI (API_KEY e), GenerateVideos (build_payload s)]"
  have fr: "\<not> is_setter ev \<and> ev \<noteq> HasSelectedApiKey \<and> (\<forall>p. ev \<noteq> GenerateVideos p)"
    if "ev \<in> set (snd (fetch_result e final))" for final ev
    using that by (auto simp: fetch_result_def Let_def split: sum.splits if_splits)
  have pc: "\<not> is_setter ev \<and> ev \<noteq> HasSelectedApiKey \<and> (\<forall>p. ev \<noteq> GenerateVideos p)"
    if "ev \<in> set (poll_calls e 0 opn k)" for opn k ev
    using poll_calls_events [OF that] by auto
  have pre: "\<not> is_setter ev \<and> ev \<noteq> HasSelectedApiKey \<and>
             (\<forall>p. ev = GenerateVideos p \<longrightarrow> p = build_payload s)"
    if "ev \<in> set ?pre" for ev
    using that by auto
  obtain opn k final where shape:
    "calls = [NewGoogleGenAI (API_KEY e)] \<or> calls = ?pre
     \<or> calls = ?pre @ poll_calls e 0 opn k
     \<or> calls = ?pre @ poll_calls e 0 opn k @ snd (fetch_result e final)"
    using try_body_Some [OF assms] by blast
  have each: "\<not> is_setter ev \<and> ev \<noteq> HasSelectedApiKey \<and>
              (\<forall>p. ev = GenerateVideos p \<longrightarrow> p = build_payload s)"
    if "ev \<in> set calls" for ev
  proof -
    from shape that have
      "ev \<in> set ?pre \<or> ev \<in> set (poll_calls e 0 opn k)
       \<or> ev \<in> set (snd (fetch_result e final))"
      by auto
    then show ?thesis
      using pre [of ev] pc [of ev opn k] fr [of ev final] by blast
  qed
  show "\<forall>ev\<in>set calls. \<not> is_setter ev"
    using each by blast
  show "\<forall>p. GenerateVideos p \<in> set calls \<longrightarrow> p = build_payload s"
    using each by blast
  show "HasSelectedApiKey \<notin> set calls"
    using each by blast
  have one: "submitted_payloads [NewGoogleGenAI (API_KEY e)] = []"
    "submitted_payloads ?pre = [build_payload s]"
    "fetched_urls [NewGoogleGenAI (API_KEY e)] = []"
    "fetched_urls ?pre = []"
    by (simp_all add: submitted_payloads_def fetched_urls_def)
  from shape show "length (submitted_payloads calls) \<le> 1"
    using one fetch_result_calls(2) [of e final]
    by (elim disjE) (simp_all only: submitted_payloads_append poll_calls_readings, simp_all)
  from shape show "length (fetched_urls calls) \<le> 1"
    using one fetch_result_calls(3) [of e final]
    by (elim disjE) (simp_all only: fetched_urls_append poll_calls_readings, simp_all)
qed

text \<open>The handler as a whole, once the guard has let the attempt begin.\<close>

lemma handle_ends:
  assumes "\<not> guard_returns s" and "try_body e s = Some (outcome, calls)"
  shows "handleGenerateVideo e s = Some (begin_events @ calls @ finish_events outcome)"
    and "apply_events s (begin_events @ calls @ finish_events outcome) =
         apply_events (apply_events s begin_events) (finish_events outcome)"
  using assms try_body_calls(1) [OF assms(2)]
  by (simp_all add: handleGenerateVideo_def apply_events_calls)

lemma begin_state:
  "isLoading (apply_events s begin_events)"
  "error (apply_events s begin_events) = None"
  "generatedVideoUrl (apply_events s begin_events) = None"
  "hasApiKey (apply_events s begin_events) = hasApiKey s"
  by (simp_all add: begin_events_def)

lemma error_text_nonempty: "error_text err \<noteq> []"
  by (simp add: error_text_def split: option.splits)

lemma failure_state:
  fixes s err
  defines "s' \<equiv> apply_events (apply_events s begin_events) (finish_events (Inl err))"
  shows "\<not> isLoading s'"
    and "generatedVideoUrl s' = None"
    and "str_includes (error_text err) ''Requested entity was not found.'' \<Longrightarrow>
         error s' = Some ''Your API key is invalid or not found. Please select a valid key and try again.''
         \<and> \<not> hasApiKey s'"
    and "\<not> str_includes (error_text err) ''Requested entity was not found.'' \<Longrightarrow>
         error s' = Some (error_text err) \<and> hasApiKey s' = hasApiKey s"
  unfolding s'_def
  by (simp_all add: finish_events_def catch_events_def begin_events_def)

lemma success_state:
  fixes s videoUrl
  defines "s' \<equiv> apply_events (apply_events s begin_events) (finish_events (Inr videoUrl))"
  shows "\<not> isLoading s'"
    and "generatedVideoUrl s' = Some videoUrl"
    and "error s' = None"
    and "hasApiKey s' = hasApiKey s"
  unfolding s'_def
  by (simp_all add: finish_events_def begin_events_def)

lemma finish_events_readings:
  "submitted_payloads (finish_events outcome) = []"
  "fetched_urls (finish_events outcome) = []"
  "\<forall>ev\<in>set (finish_events outcome). ev = ConsoleError \<or> is_setter ev"
  "HasSelectedApiKey \<notin> set (finish_events outcome)"
  by (auto simp: finish_events_def catch_events_def submitted_payloads_def fetched_urls_def
      split: sum.splits)

lemma begin_events_readings:
  "submitted_payloads begin_events = []"
  "fetched_urls begin_events = []"
  "surfaced_errors begin_events = []"
  "HasSelectedApiKey \<notin> set begin_events"
  by (simp_all add: begin_events_def submitted_payloads_def fetched_urls_def surfaced_errors_def)

lemma surfaced_errors_failure:
  "surfaced_errors (finish_events (Inl err)) =
     [if str_includes (error_text err) ''Requested entity was not found.''
      then ''Your API key is invalid or not found. Please select a valid key and try again.''
      else error_text err]"
  by (simp add: finish_events_def catch_events_def surfaced_errors_def)

lemma initial_state_passes_guard: "\<not> guard_returns initial_state"
  by (simp add: guard_returns_def initial_state_def trim_def is_white_space_def)

section \<open>Claims about failures\<close>

lemma readings_Nil [simp]:
  "submitted_payloads [] = []" "fetched_urls [] = []" "surfaced_errors [] = []"
  by (simp_all add: submitted_payloads_def fetched_urls_def surfaced_errors_def)

lemma submitted_payloads_Cons [simp]:
  "submitted_payloads (ev # evs) =
     (case ev of GenerateVideos p \<Rightarrow> [p] | _ \<Rightarrow> []) @ submitted_payloads evs"
  by (simp add: submitted_payloads_def)

lemma fetched_urls_Cons [simp]:
  "fetched_urls (ev # evs) = (case ev of Fetch u \<Rightarrow> [u] | _ \<Rightarrow> []) @ fetched_urls evs"
  by (simp add: fetched_urls_def)

lemma surfaced_errors_Cons [simp]:
  "surfaced_errors (ev # evs) =
     (case ev of SetError (Some m) \<Rightarrow> [m] | _ \<Rightarrow> []) @ surfaced_errors evs"
  by (simp add: surfaced_errors_def)

text \<open>
  C2. When the poll loop ends with an operation that is done and carries no video URI
  (any link of \<open>response?.generatedVideos?.[0]?.video?.uri\<close> absent, or the URI empty),
  the handler returns; the state then holds the message that no download link was
  found, is not busy, and has no video handle; no media fetch was made.
\<close>

theorem done_without_link_fails:
  assumes "\<not> guard_returns s"
    and "newGoogleGenAI e (API_KEY e) = None"
    and "generateVideos e (build_payload s) = Inr opn"
    and "loop_ends_after e 0 opn k (Inr final)"
    and "\<not> truthy (downloadLink final)"
  shows "\<exists>evs. handleGenerateVideo e s = Some evs
           \<and> error (apply_events s evs) =
               Some ''Video generation succeeded but no download link was found.''
           \<and> \<not> isLoading (apply_events s evs)
           \<and> generatedVideoUrl (apply_events s evs) = None
           \<and> hasApiKey (apply_events s evs) = hasApiKey s
           \<and> fetched_urls evs = []
           \<and> surfaced_errors evs =
               [''Video generation succeeded but no download link was found.'']"
proof -
  let ?err = "Error (Some ''Video generation succeeded but no download link was found.'')"
  let ?pre = "[NewGoogleGenAI (API_KEY e), GenerateVideos (build_payload s)]"
  let ?calls = "?pre @ poll_calls e 0 opn k"
  let ?evs = "begin_events @ ?calls @ finish_events (Inl ?err)"
  from assms(5) have fr: "fetch_result e final = (Inl ?err, [])"
    by (simp add: fetch_result_def)
  with try_body_loop_done [OF assms(2,3,4)]
  have body: "try_body e s = Some (Inl ?err, ?calls)"
    by simp
  have msg: "error_text ?err = ''Video generation succeeded but no download link was found.''"
    by (simp add: error_text_def)
  have kept: "\<not> str_includes (error_text ?err) ''Requested entity was not found.''"
    unfolding msg by (rule no_link_message_kept)
  note ends = handle_ends [OF assms(1) body]
  have "handleGenerateVideo e s = Some ?evs"
    by (rule ends(1))
  moreover have "error (apply_events s ?evs) =
      Some ''Video generation succeeded but no download link was found.''"
    and "hasApiKey (apply_events s ?evs) = hasApiKey s"
    using failure_state(4) [OF kept, of s] unfolding ends(2) msg by simp_all
  moreover have "\<not> isLoading (apply_events s ?evs)"
    and "generatedVideoUrl (apply_events s ?evs) = None"
    unfolding ends(2) by (rule failure_state)+
  moreover have "fetched_urls ?evs = []"
    by (simp add: begin_events_readings finish_events_readings)
  moreover have "surfaced_errors ?evs =
      [''Video generation succeeded but no download link was found.'']"
    using kept
    by (simp add: begin_events_readings surfaced_errors_failure msg)
  ultimately show ?thesis by blast
qed

lemma no_link_env_run:
  "newGoogleGenAI no_link_env (API_KEY no_link_env) = None"
  "generateVideos no_link_env (build_payload initial_state) = Inr pending_operation"
  "loop_ends_after no_link_env 0 pending_operation 1
     (Inr (pending_operation\<lparr>op_done := Some True\<rparr>))"
  "\<not> truthy (downloadLink (pending_operation\<lparr>op_done := Some True\<rparr>))"
  by (simp_all add: no_link_env_def demo_env_def loop_ends_after_def is_done_def
      pending_operation_def downloadLink_def)

theorem done_without_link_fails_witness:
  "\<not> guard_returns initial_state
   \<and> loop_ends_after no_link_env 0 pending_operation 1
       (Inr (pending_operation\<lparr>op_done := Some True\<rparr>))
   \<and> \<not> truthy (downloadLink (pending_operation\<lparr>op_done := Some True\<rparr>))
   \<and> (\<exists>evs. handleGenerateVideo no_link_env initial_state = Some evs
          \<and> error (apply_events initial_state evs) =
              Some ''Video generation succeeded but no download link was found.''
          \<and> \<not> isLoading (apply_events initial_state evs)
          \<and> generatedVideoUrl (apply_events initial_state evs) = None
          \<and> fetched_urls evs = [])"
  using done_without_link_fails [OF initial_state_passes_guard no_link_env_run]
    initial_state_passes_guard no_link_env_run(3,4)
  by blast

lemma ready_state_passes_guard: "\<not> guard_returns ready_state"
  by (simp add: guard_returns_def ready_state_def initial_state_def trim_def is_white_space_def)

lemma empty_message_kept: "\<not> str_includes [] ''Requested entity was not found.''"
  by simp

lemma refusing_env_run:
  "newGoogleGenAI (refusing_env err) (API_KEY (refusing_env err)) = None"
  "generateVideos (refusing_env err) p = Inl err"
  "API_KEY (refusing_env err) = Some ''key''"
  by (simp_all add: refusing_env_def demo_env_def)

lemma refusing_env_try_body:
  "try_body (refusing_env err) s =
     Some (Inl err, [NewGoogleGenAI (Some ''key''), GenerateVideos (build_payload s)])"
  using try_body_submission_fails [OF refusing_env_run(1,2), of err s]
  by (simp add: refusing_env_run(3))

text \<open>
  C3, as the code has it. For an error raised during an attempt: when its message
  contains \<open>Requested entity was not found.\<close>, the credential-invalid message is
  surfaced and \<open>hasApiKey\<close> becomes false; when its message is another non-empty string,
  that string is surfaced unchanged and \<open>hasApiKey\<close> is kept; when its message is empty
  or missing, \<open>An unknown error occurred.\<close> is surfaced and \<open>hasApiKey\<close> is kept.
\<close>

theorem error_message_remap:
  assumes "\<not> guard_returns s" and "try_body e s = Some (Inl err, calls)"
  shows "\<exists>evs. handleGenerateVideo e s = Some evs
     \<and> (\<forall>m. message err = Some m \<and> str_includes m ''Requested entity was not found.'' \<longrightarrow>
            error (apply_events s evs) =
              Some ''Your API key is invalid or not found. Please select a valid key and try again.''
            \<and> \<not> hasApiKey (apply_events s evs))
     \<and> (\<forall>m. message err = Some m \<and> m \<noteq> [] \<and>
              \<not> str_includes m ''Requested entity was not found.'' \<longrightarrow>
            error (apply_events s evs) = Some m
            \<and> hasApiKey (apply_events s evs) = hasApiKey s)
     \<and> (message err = None \<or> message err = Some [] \<longrightarrow>
            error (apply_events s evs) = Some ''An unknown error occurred.''
            \<and> hasApiKey (apply_events s evs) = hasApiKey s)"
proof -
  let ?evs = "begin_events @ calls @ finish_events (Inl err)"
  note ends = handle_ends [OF assms]
  have found: "error (apply_events s ?evs) =
        Some ''Your API key is invalid or not found. Please select a valid key and try again.''
      \<and> \<not> hasApiKey (apply_events s ?evs)"
    if "message err = Some m" "str_includes m ''Requested entity was not found.''" for m
  proof -
    from that have "m \<noteq> []" by auto
    with that(1) have "error_text err = m" by (simp add: error_text_def)
    with that(2) show ?thesis
      unfolding ends(2) using failure_state(3) [of err s] by simp
  qed
  have other: "error (apply_events s ?evs) = Some m
      \<and> hasApiKey (apply_events s ?evs) = hasApiKey s"
    if "message err = Some m" "m \<noteq> []"
      "\<not> str_includes m ''Requested entity was not found.''" for m
  proof -
    from that(1,2) have "error_text err = m" by (simp add: error_text_def)
    with that(3) show ?thesis
      unfolding ends(2) using failure_state(4) [of err s] by simp
  qed
  have unknown: "error (apply_events s ?evs) = Some ''An unknown error occurred.''
      \<and> hasApiKey (apply_events s ?evs) = hasApiKey s"
    if "message err = None \<or> message err = Some []"
  proof -
    from that have "error_text err = ''An unknown error occurred.''"
      by (auto simp: error_text_def)
    then show ?thesis
      unfolding ends(2) using failure_state(4) [of err s] unknown_message_kept by simp
  qed
  from ends(1) found other unknown show ?thesis by blast
qed

theorem error_message_remap_witness:
  "\<not> guard_returns ready_state
   \<and> (\<exists>evs. handleGenerateVideo
               (refusing_env (Error (Some ''404: Requested entity was not found.'')))
               ready_state = Some evs
          \<and> error (apply_events ready_state evs) =
              Some ''Your API key is invalid or not found. Please select a valid key and try again.''
          \<and> \<not> hasApiKey (apply_events ready_state evs))
   \<and> (\<exists>evs. handleGenerateVideo (refusing_env (Error (Some ''Quota exceeded''))) ready_state
              = Some evs
          \<and> error (apply_events ready_state evs) = Some ''Quota exceeded''
          \<and> hasApiKey (apply_events ready_state evs))
   \<and> (\<exists>evs. handleGenerateVideo (refusing_env (Error None)) ready_state = Some evs
          \<and> error (apply_events ready_state evs) = Some ''An unknown error occurred.''
          \<and> hasApiKey (apply_events ready_state evs))"
proof -
  have key: "hasApiKey ready_state"
    by (simp add: ready_state_def)
  have a: "str_includes ''404: Requested entity was not found.''
             ''Requested entity was not found.''"
    by simp
  have b: "\<not> str_includes ''Quota exceeded'' ''Requested entity was not found.''"
    by simp
  from error_message_remap [OF ready_state_passes_guard refusing_env_try_body,
      of "Error (Some ''404: Requested entity was not found.'')"] a
  have 1: "\<exists>evs. handleGenerateVideo
               (refusing_env (Error (Some ''404: Requested entity was not found.'')))
               ready_state = Some evs
          \<and> error (apply_events ready_state evs) =
              Some ''Your API key is invalid or not found. Please select a valid key and try again.''
          \<and> \<not> hasApiKey (apply_events ready_state evs)"
    by (metis js_error.sel)
  from error_message_remap [OF ready_state_passes_guard refusing_env_try_body,
      of "Error (Some ''Quota exceeded'')"] b key
  have 2: "\<exists>evs. handleGenerateVideo (refusing_env (Error (Some ''Quota exceeded'')))
               ready_state = Some evs
          \<and> error (apply_events ready_state evs) = Some ''Quota exceeded''
          \<and> hasApiKey (apply_events ready_state evs)"
    by (metis js_error.sel list.distinct(1))
  from error_message_remap [OF ready_state_passes_guard refusing_env_try_body,
      of "Error None"] key
  have 3: "\<exists>evs. handleGenerateVideo (refusing_env (Error None)) ready_state = Some evs
          \<and> error (apply_events ready_state evs) = Some ''An unknown error occurred.''
          \<and> hasApiKey (apply_events ready_state evs)"
    by (metis js_error.sel)
  from 1 2 3 ready_state_passes_guard show ?thesis by blast
qed

text \<open>
  C3 as stated fails for an error whose message is empty: the submission is refused with
  the message \<open>''''\<close>, which does not contain the pattern, and the state ends with
  \<open>An unknown error occurred.\<close>, not with the raw message.
\<close>

theorem empty_message_is_replaced:
  "generateVideos (refusing_env (Error (Some []))) (build_payload ready_state)
     = Inl (Error (Some []))
   \<and> \<not> str_includes [] ''Requested entity was not found.''
   \<and> handleGenerateVideo (refusing_env (Error (Some []))) ready_state \<noteq> None
   \<and> error (apply_events ready_state
        (the (handleGenerateVideo (refusing_env (Error (Some []))) ready_state)))
       = Some ''An unknown error occurred.''
   \<and> Some ''An unknown error occurred.'' \<noteq> Some []"
proof -
  let ?err = "Error (Some [])"
  let ?calls = "[NewGoogleGenAI (Some ''key''), GenerateVideos (build_payload ready_state)]"
  note ends = handle_ends [OF ready_state_passes_guard refusing_env_try_body, of ?err]
  have "error_text ?err = ''An unknown error occurred.''"
    by (simp add: error_text_def)
  then have "error (apply_events ready_state (begin_events @ ?calls @ finish_events (Inl ?err)))
      = Some ''An unknown error occurred.''"
    unfolding ends(2) using failure_state(4) [of ?err ready_state] unknown_message_kept
    by simp
  with ends(1) show ?thesis
    by (simp add: refusing_env_run)
qed

lemma fetch_status_env_run:
  "newGoogleGenAI (fetch_status_env t) (API_KEY (fetch_status_env t)) = None"
  "generateVideos (fetch_status_env t) p = Inr pending_operation"
  "loop_ends_after (fetch_status_env t) 0 pending_operation 1 (Inr finished_operation)"
  "truthy (downloadLink finished_operation)"
  "fetch (fetch_status_env t)
     (template_text (downloadLink finished_operation) @ ''&key=''
      @ template_text (API_KEY (fetch_status_env t)))
   = Inr \<lparr>ok = False, statusText = t, body_blob = Inr \<lparr>blob_type = [], blob_bytes = []\<rparr>\<rparr>"
  "template_text (downloadLink finished_operation) @ ''&key=''
      @ template_text (API_KEY (fetch_status_env t)) = ''https://host/v1?alt=media&key=key''"
  by (simp_all add: fetch_status_env_def demo_env_def loop_ends_after_def is_done_def
      pending_operation_def finished_operation_def finished_response_def downloadLink_def)

lemma fetch_result_bad_status:
  assumes "truthy (downloadLink final)"
    and "fetch e (template_text (downloadLink final) @ ''&key='' @ template_text (API_KEY e))
         = Inr videoResponse"
    and "\<not> ok videoResponse"
  shows "fetch_result e final =
     (Inl (Error (Some (''Failed to fetch video data: '' @ statusText videoResponse))),
      [Fetch (template_text (downloadLink final) @ ''&key='' @ template_text (API_KEY e))])"
  using assms by (simp add: fetch_result_def Let_def)

text \<open>
  C4, as the code has it. When the media fetch is answered with a status that is not a
  success, the handler returns, the state is not busy and has no video handle, and the
  body of the response is never read. The surfaced message is
  \<open>Failed to fetch video data: \<close> followed by the status text of the response, unless
  that status text contains \<open>Requested entity was not found.\<close>: then the
  credential-invalid message is surfaced and \<open>hasApiKey\<close> becomes false.
\<close>

theorem failed_fetch_status:
  assumes "\<not> guard_returns s"
    and "newGoogleGenAI e (API_KEY e) = None"
    and "generateVideos e (build_payload s) = Inr opn"
    and "loop_ends_after e 0 opn k (Inr final)"
    and "truthy (downloadLink final)"
    and "fetch e (template_text (downloadLink final) @ ''&key='' @ template_text (API_KEY e))
         = Inr videoResponse"
    and "\<not> ok videoResponse"
  shows "\<exists>evs. handleGenerateVideo e s = Some evs
     \<and> \<not> isLoading (apply_events s evs)
     \<and> generatedVideoUrl (apply_events s evs) = None
     \<and> ReadBlob \<notin> set evs \<and> (\<forall>b. CreateObjectURL b \<notin> set evs)
     \<and> (if str_includes (statusText videoResponse) ''Requested entity was not found.''
         then error (apply_events s evs) =
                Some ''Your API key is invalid or not found. Please select a valid key and try again.''
              \<and> \<not> hasApiKey (apply_events s evs)
         else error (apply_events s evs) =
                Some (''Failed to fetch video data: '' @ statusText videoResponse)
              \<and> hasApiKey (apply_events s evs) = hasApiKey s)"
proof -
  let ?url = "template_text (downloadLink final) @ ''&key='' @ template_text (API_KEY e)"
  let ?msg = "''Failed to fetch video data: '' @ statusText videoResponse"
  let ?err = "Error (Some ?msg)"
  let ?calls = "[NewGoogleGenAI (API_KEY e), GenerateVideos (build_payload s)]
                @ poll_calls e 0 opn k @ [Fetch ?url]"
  let ?evs = "begin_events @ ?calls @ finish_events (Inl ?err)"
  have body: "try_body e s = Some (Inl ?err, ?calls)"
    using try_body_loop_done [OF assms(2,3,4)] fetch_result_bad_status [OF assms(5,6,7)]
    by simp
  note ends = handle_ends [OF assms(1) body]
  have msg: "error_text ?err = ?msg"
    by (simp add: error_text_def)
  have incl: "str_includes (error_text ?err) ''Requested entity was not found.''
      \<longleftrightarrow> str_includes (statusText videoResponse) ''Requested entity was not found.''"
    unfolding msg by (rule fetch_message_includes)
  have "handleGenerateVideo e s = Some ?evs"
    by (rule ends(1))
  moreover have "\<not> isLoading (apply_events s ?evs)"
    and "generatedVideoUrl (apply_events s ?evs) = None"
    unfolding ends(2) by (rule failure_state)+
  moreover have "ReadBlob \<notin> set ?evs \<and> (\<forall>b. CreateObjectURL b \<notin> set ?evs)"
  proof -
    have "ev \<noteq> ReadBlob \<and> (\<forall>b. ev \<noteq> CreateObjectURL b)"
      if "ev \<in> set (poll_calls e 0 opn k)" for ev
      using poll_calls_events [OF that] by auto
    moreover have "ev \<noteq> ReadBlob \<and> (\<forall>b. ev \<noteq> CreateObjectURL b)"
      if "ev \<in> set (finish_events (Inl ?err))" for ev
      using finish_events_readings(3) [of "Inl ?err"] that by auto
    moreover have "ev \<noteq> ReadBlob \<and> (\<forall>b. ev \<noteq> CreateObjectURL b)"
      if "ev \<in> set begin_events" for ev
      using that by (auto simp: begin_events_def)
    ultimately show ?thesis by auto
  qed
  moreover have
    "if str_includes (statusText videoResponse) ''Requested entity was not found.''
     then error (apply_events s ?evs) =
            Some ''Your API key is invalid or not found. Please select a valid key and try again.''
          \<and> \<not> hasApiKey (apply_events s ?evs)
     else error (apply_events s ?evs) = Some ?msg
          \<and> hasApiKey (apply_events s ?evs) = hasApiKey s"
    unfolding ends(2)
    using failure_state(3,4) [of ?err s] incl msg by auto
  ultimately show ?thesis by blast
qed

theorem failed_fetch_status_witness:
  "\<not> guard_returns ready_state
   \<and> loop_ends_after (fetch_status_env ''Forbidden'') 0 pending_operation 1
       (Inr finished_operation)
   \<and> truthy (downloadLink finished_operation)
   \<and> (\<exists>evs. handleGenerateVideo (fetch_status_env ''Forbidden'') ready_state = Some evs
        \<and> \<not> isLoading (apply_events ready_state evs)
        \<and> generatedVideoUrl (apply_events ready_state evs) = None
        \<and> ReadBlob \<notin> set evs
        \<and> error (apply_events ready_state evs) = Some ''Failed to fetch video data: Forbidden''
        \<and> hasApiKey (apply_events ready_state evs))"
proof -
  have "\<not> str_includes ''Forbidden'' ''Requested entity was not found.''"
    by simp
  moreover have "hasApiKey ready_state"
    by (simp add: ready_state_def)
  moreover note failed_fetch_status
    [OF ready_state_passes_guard fetch_status_env_run(1,2,3,4,5), of "''Forbidden''"]
  ultimately
  have "\<exists>evs. handleGenerateVideo (fetch_status_env ''Forbidden'') ready_state = Some evs
        \<and> \<not> isLoading (apply_events ready_state evs)
        \<and> generatedVideoUrl (apply_events ready_state evs) = None
        \<and> ReadBlob \<notin> set evs
        \<and> error (apply_events ready_state evs) = Some ''Failed to fetch video data: Forbidden''
        \<and> hasApiKey (apply_events ready_state evs)"
    by auto
  then show ?thesis
    using ready_state_passes_guard fetch_status_env_run(3,4) by blast
qed

text \<open>
  C4 as stated fails when the status text itself contains the pattern of the
  credential check: the fetch is answered with a status that is not a success and the
  status text \<open>Requested entity was not found.\<close>; the surfaced message is the
  credential-invalid message, in which that status text does not occur.
\<close>

theorem not_found_status_is_remapped:
  "fetch (fetch_status_env ''Requested entity was not found.'')
     ''https://host/v1?alt=media&key=key''
     = Inr \<lparr>ok = False, statusText = ''Requested entity was not found.'',
            body_blob = Inr \<lparr>blob_type = [], blob_bytes = []\<rparr>\<rparr>
   \<and> handleGenerateVideo (fetch_status_env ''Requested entity was not found.'') ready_state
       \<noteq> None
   \<and> fetched_urls
        (the (handleGenerateVideo (fetch_status_env ''Requested entity was not found.'')
               ready_state))
       = [''https://host/v1?alt=media&key=key'']
   \<and> error (apply_events ready_state
        (the (handleGenerateVideo (fetch_status_env ''Requested entity was not found.'')
               ready_state)))
       = Some ''Your API key is invalid or not found. Please select a valid key and try again.''
   \<and> \<not> str_includes
         ''Your API key is invalid or not found. Please select a valid key and try again.''
         ''Requested entity was not found.''"
proof -
  let ?t = "''Requested entity was not found.''"
  let ?e = "fetch_status_env ?t"
  let ?url = "''https://host/v1?alt=media&key=key''"
  let ?err = "Error (Some (''Failed to fetch video data: '' @ ?t))"
  let ?calls = "[NewGoogleGenAI (API_KEY ?e), GenerateVideos (build_payload ready_state)]
                @ poll_calls ?e 0 pending_operation 1 @ [Fetch ?url]"
  have fr: "fetch_result ?e finished_operation = (Inl ?err, [Fetch ?url])"
    using fetch_result_bad_status
      [OF fetch_status_env_run(4,5), of ?t, unfolded fetch_status_env_run(6)]
    by simp
  have body: "try_body ?e ready_state = Some (Inl ?err, ?calls)"
    using try_body_loop_done [OF fetch_status_env_run(1,2,3), of ?t ready_state] fr
    by simp
  note ends = handle_ends [OF ready_state_passes_guard body]
  have incl: "str_includes (error_text ?err) ''Requested entity was not found.''"
    by (simp add: error_text_def)
  have "error (apply_events ready_state (begin_events @ ?calls @ finish_events (Inl ?err)))
      = Some ''Your API key is invalid or not found. Please select a valid key and try again.''"
    unfolding ends(2) using failure_state(3) [OF incl, of ready_state] by simp
  moreover have "fetched_urls (begin_events @ ?calls @ finish_events (Inl ?err)) = [?url]"
    by (simp add: begin_events_readings finish_events_readings)
  moreover have "fetch ?e ?url
     = Inr \<lparr>ok = False, statusText = ?t, body_blob = Inr \<lparr>blob_type = [], blob_bytes = []\<rparr>\<rparr>"
    by (simp add: fetch_status_env_def)
  moreover have "\<not> str_includes
         ''Your API key is invalid or not found. Please select a valid key and try again.''
         ''Requested entity was not found.''"
    by simp
  ultimately show ?thesis
    using ends(1) by simp
qed

lemma poll_failing_env_run:
  "newGoogleGenAI poll_failing_env (API_KEY poll_failing_env) = None"
  "generateVideos poll_failing_env p = Inr pending_operation"
  "loop_ends_after poll_failing_env 0 pending_operation 1 (Inl (Error (Some ''Network error'')))"
  "API_KEY poll_failing_env = Some ''key''"
  by (simp_all add: poll_failing_env_def demo_env_def loop_ends_after_def is_done_def
      pending_operation_def)

lemma poll_failing_env_try_body:
  "try_body poll_failing_env s =
     Some (Inl (Error (Some ''Network error'')),
           [NewGoogleGenAI (Some ''key''), GenerateVideos (build_payload s),
            SetTimeout 10000, GetVideosOperation pending_operation])"
  using try_body_poll_fails [OF poll_failing_env_run(1,2,3), of s]
  by (simp add: poll_failing_env_run(4) poll_calls_1)

text \<open>An error raised at any stage of the attempt is the outcome of the \<open>try\<close> block:
  by the constructor of the client, by the submission, by a poll, or after the loop (no
  download link, the fetch, its status, reading the body).\<close>

lemma error_at_any_stage:
  assumes "newGoogleGenAI e (API_KEY e) = Some err
     \<or> (newGoogleGenAI e (API_KEY e) = None \<and> generateVideos e (build_payload s) = Inl err)
     \<or> (\<exists>opn k. newGoogleGenAI e (API_KEY e) = None \<and>
           generateVideos e (build_payload s) = Inr opn \<and>
           loop_ends_after e 0 opn k (Inl err))
     \<or> (\<exists>opn k final. newGoogleGenAI e (API_KEY e) = None \<and>
           generateVideos e (build_payload s) = Inr opn \<and>
           loop_ends_after e 0 opn k (Inr final) \<and> fst (fetch_result e final) = Inl err)"
  shows "\<exists>calls. try_body e s = Some (Inl err, calls)"
  using assms
proof (elim disjE exE conjE)
  assume "newGoogleGenAI e (API_KEY e) = Some err"
  then show ?thesis by (simp add: try_body_constructor_throws)
next
  assume "newGoogleGenAI e (API_KEY e) = None" "generateVideos e (build_payload s) = Inl err"
  then show ?thesis by (simp add: try_body_submission_fails)
next
  fix opn k
  assume "newGoogleGenAI e (API_KEY e) = None" "generateVideos e (build_payload s) = Inr opn"
    "loop_ends_after e 0 opn k (Inl err)"
  then show ?thesis by (simp add: try_body_poll_fails)
next
  fix opn k final
  assume "newGoogleGenAI e (API_KEY e) = None" "generateVideos e (build_payload s) = Inr opn"
    "loop_ends_after e 0 opn k (Inr final)" "fst (fetch_result e final) = Inl err"
  then show ?thesis by (simp add: try_body_loop_done)
qed



section \<open>The credential check\<close>

lemma handle_no_credential_query:
  assumes "handleGenerateVideo e s = Some evs"
  shows "HasSelectedApiKey \<notin> set evs"
proof (cases "guard_returns s")
  case True
  with assms show ?thesis by (simp add: handleGenerateVideo_def)
next
  case False
  with assms obtain outcome calls where
    body: "try_body e s = Some (outcome, calls)"
    and evs: "evs = begin_events @ calls @ finish_events outcome"
    by (auto simp: handleGenerateVideo_def split: option.splits)
  from try_body_calls(5) [OF body] show ?thesis
    unfolding evs using begin_events_readings(4) finish_events_readings(4) [of outcome]
    by simp
qed

text \<open>
  C8, as the code has it. The query \<open>hasSelectedApiKey\<close> is made once when the component
  mounts (and not at all when \<open>window.aistudio\<close> is absent). No generation attempt makes
  it, failed or not, and neither does any other handler; a failed attempt whose message
  contains \<open>Requested entity was not found.\<close> sets the cached flag to false itself.
\<close>

theorem credential_query_only_on_mount:
  "count_list (on_mount e) HasSelectedApiKey = (if aistudio e = None then 0 else 1)
   \<and> (handleGenerateVideo e s = Some evs \<longrightarrow> HasSelectedApiKey \<notin> set evs)
   \<and> HasSelectedApiKey \<notin> set (handleSelectKey e)
   \<and> HasSelectedApiKey \<notin> set (handleImageChange e s picked)
   \<and> HasSelectedApiKey \<notin> set (removeImage s)
   \<and> (\<not> guard_returns s \<and> try_body e s = Some (Inl err, calls) \<and>
        handleGenerateVideo e s = Some evs \<and>
        str_includes (error_text err) ''Requested entity was not found.''
        \<longrightarrow> SetHasApiKey False \<in> set evs \<and> \<not> hasApiKey (apply_events s evs))"
proof (intro conjI impI)
  show "count_list (on_mount e) HasSelectedApiKey = (if aistudio e = None then 0 else 1)"
    by (simp add: on_mount_def checkApiKey_def split: option.splits sum.splits)
  show "HasSelectedApiKey \<notin> set (handleSelectKey e)"
    by (simp add: handleSelectKey_def split: option.splits)
  show "HasSelectedApiKey \<notin> set (handleImageChange e s picked)"
    by (cases "previewUrl (referenceImage s)")
       (simp_all add: handleImageChange_def split: option.splits sum.splits)
  show "HasSelectedApiKey \<notin> set (removeImage s)"
    by (cases "previewUrl (referenceImage s)") (simp_all add: removeImage_def)
next
  assume "handleGenerateVideo e s = Some evs"
  then show "HasSelectedApiKey \<notin> set evs"
    by (rule handle_no_credential_query)
next
  assume a: "\<not> guard_returns s \<and> try_body e s = Some (Inl err, calls) \<and>
        handleGenerateVideo e s = Some evs \<and>
        str_includes (error_text err) ''Requested entity was not found.''"
  then have evs: "evs = begin_events @ calls @ finish_events (Inl err)"
    using handle_ends(1) [of s e "Inl err" calls] by simp
  from a show "SetHasApiKey False \<in> set evs"
    unfolding evs by (simp add: finish_events_def catch_events_def)
  from a show "\<not> hasApiKey (apply_events s evs)"
    unfolding evs using handle_ends(2) [of s e "Inl err" calls] failure_state(3) [of err s]
    by simp
qed

theorem credential_query_only_on_mount_witness:
  "count_list (on_mount demo_env) HasSelectedApiKey = 1
   \<and> handleGenerateVideo
        (refusing_env (Error (Some ''404: Requested entity was not found.''))) ready_state
      \<noteq> None
   \<and> HasSelectedApiKey \<notin> set (the (handleGenerateVideo
        (refusing_env (Error (Some ''404: Requested entity was not found.''))) ready_state))
   \<and> SetHasApiKey False \<in> set (the (handleGenerateVideo
        (refusing_env (Error (Some ''404: Requested entity was not found.''))) ready_state))"
proof -
  let ?err = "Error (Some ''404: Requested entity was not found.'')"
  let ?calls = "[NewGoogleGenAI (Some ''key''), GenerateVideos (build_payload ready_state)]"
  let ?evs = "begin_events @ ?calls @ finish_events (Inl ?err)"
  have run: "handleGenerateVideo (refusing_env ?err) ready_state = Some ?evs"
    by (rule handle_ends(1) [OF ready_state_passes_guard refusing_env_try_body])
  have incl: "str_includes (error_text ?err) ''Requested entity was not found.''"
    by (simp add: error_text_def)
  have env: "aistudio demo_env \<noteq> None"
    by (simp add: demo_env_def)
  note mount = credential_query_only_on_mount [where e = demo_env]
  note attempt = credential_query_only_on_mount
    [where e = "refusing_env ?err" and s = ready_state and evs = ?evs and err = ?err
       and calls = ?calls]
  from mount env have "count_list (on_mount demo_env) HasSelectedApiKey = 1"
    by simp
  moreover from attempt run have "HasSelectedApiKey \<notin> set ?evs"
    by blast
  moreover from attempt run incl ready_state_passes_guard refusing_env_try_body
  have "SetHasApiKey False \<in> set ?evs"
    by blast
  ultimately show ?thesis
    using run by simp
qed

text \<open>
  C8 as stated fails: an attempt in which the first poll fails ends with an error
  message, and the handler has not queried \<open>hasSelectedApiKey\<close>.
\<close>

theorem failed_attempt_makes_no_credential_query:
  "handleGenerateVideo poll_failing_env ready_state \<noteq> None
   \<and> error (apply_events ready_state (the (handleGenerateVideo poll_failing_env ready_state)))
       = Some ''Network error''
   \<and> HasSelectedApiKey \<notin> set (the (handleGenerateVideo poll_failing_env ready_state))"
proof -
  let ?err = "Error (Some ''Network error'')"
  let ?calls = "[NewGoogleGenAI (Some ''key''), GenerateVideos (build_payload ready_state),
                 SetTimeout 10000, GetVideosOperation pending_operation]"
  let ?evs = "begin_events @ ?calls @ finish_events (Inl ?err)"
  note ends = handle_ends [OF ready_state_passes_guard poll_failing_env_try_body]
  have kept: "\<not> str_includes (error_text ?err) ''Requested entity was not found.''"
    by (simp add: error_text_def)
  have "error (apply_events ready_state ?evs) = Some ''Network error''"
    unfolding ends(2) using failure_state(4) [OF kept, of ready_state]
    by (simp add: error_text_def)
  moreover have "HasSelectedApiKey \<notin> set ?evs"
    using handle_no_credential_query [OF ends(1)] .
  ultimately show ?thesis
    using ends(1) by simp
qed

section \<open>Error message and video handle\<close>

lemma states_of_last: "last (states_of s evs) = apply_events s evs"
  by (induction evs arbitrary: s) (simp_all, metis list.distinct(1) states_of.elims)

lemma set_states_of_append:
  "set (states_of s (xs @ ys)) = set (states_of s xs) \<union> set (states_of (apply_events s xs) ys)"
proof (induction xs arbitrary: s)
  case Nil
  have "s \<in> set (states_of s ys)" by (cases ys) simp_all
  then show ?case by auto
next
  case (Cons x xs)
  then show ?case by simp
qed

lemma states_of_calls: "\<forall>ev\<in>set evs. \<not> is_setter ev \<Longrightarrow> set (states_of s evs) = {s}"
  by (induction evs arbitrary: s) (simp_all add: apply_event_call)

lemma exclusive_finish:
  assumes "error s = None" and "generatedVideoUrl s = None"
  shows "\<forall>s'\<in>set (states_of s (finish_events outcome)). exclusive s'"
  using assms
  by (cases outcome) (simp_all add: finish_events_def catch_events_def exclusive_def)

lemma exclusive_begin:
  "\<forall>s'\<in>set (drop 3 (states_of s begin_events)). exclusive s'"
  "exclusive s \<Longrightarrow> \<forall>s'\<in>set (states_of s begin_events). exclusive s'"
  by (simp_all add: begin_events_def exclusive_def)

lemma set_drop_states_of_begin:
  "set (drop 3 (states_of s (begin_events @ rest))) =
     set (drop 3 (states_of s begin_events))
     \<union> set (states_of (apply_events s begin_events) rest)"
proof -
  have "t \<in> set (states_of t rest)" for t
    by (cases rest) simp_all
  then show ?thesis
    by (auto simp: begin_events_def)
qed


lemma demo_env_try_body:
  "try_body demo_env s =
     Some (Inr ''blob:app/1'',
           [NewGoogleGenAI (Some ''key''), GenerateVideos (build_payload s),
            SetTimeout 10000, GetVideosOperation pending_operation,
            Fetch ''https://host/v1?alt=media&key=key'', ReadBlob,
            CreateObjectURL (Inr \<lparr>blob_type = ''video/mp4'', blob_bytes = [0, 1]\<rparr>)])"
proof -
  have new: "newGoogleGenAI demo_env (API_KEY demo_env) = None"
    and gen: "generateVideos demo_env (build_payload s) = Inr pending_operation"
    and key: "API_KEY demo_env = Some ''key''"
    by (simp_all add: demo_env_def)
  have ends: "loop_ends_after demo_env 0 pending_operation 1 (Inr finished_operation)"
    by (simp add: loop_ends_after_def demo_env_def pending_operation_def
        finished_operation_def is_done_def)
  have fr: "fetch_result demo_env finished_operation =
      (Inr ''blob:app/1'',
       [Fetch ''https://host/v1?alt=media&key=key'', ReadBlob,
        CreateObjectURL (Inr \<lparr>blob_type = ''video/mp4'', blob_bytes = [0, 1]\<rparr>)])"
    by (simp add: fetch_result_def demo_env_def finished_operation_def
        finished_response_def pending_operation_def downloadLink_def)
  from try_body_loop_done [OF new gen ends] show ?thesis
    by (simp add: fr key poll_calls_1)
qed


section \<open>The reference image\<close>

text \<open>
  C9. \<open>removeImage\<close> revokes the preview URL when there is one (a truthy \<open>previewUrl\<close>)
  and makes no release call otherwise; in both cases it sets the reference image to
  three nulls and touches nothing else. In particular, after a file has been picked and
  read, with the object URL the browser made for it (never an empty string),
  \<open>removeImage\<close> revokes exactly that URL.
\<close>

theorem removeImage_releases_and_clears:
  "(truthy (previewUrl (referenceImage s)) \<longrightarrow>
      (\<exists>u. previewUrl (referenceImage s) = Some u \<and>
           removeImage s =
             [RevokeObjectURL u,
              SetReferenceImage \<lparr>ref_file = None, previewUrl = None, base64 = None\<rparr>]))
   \<and> (\<not> truthy (previewUrl (referenceImage s)) \<longrightarrow>
      removeImage s =
        [SetReferenceImage \<lparr>ref_file = None, previewUrl = None, base64 = None\<rparr>])
   \<and> apply_events s (removeImage s) =
       s\<lparr>referenceImage := \<lparr>ref_file = None, previewUrl = None, base64 = None\<rparr>\<rparr>
   \<and> ref_file (referenceImage (apply_events s (removeImage s))) = None
   \<and> previewUrl (referenceImage (apply_events s (removeImage s))) = None
   \<and> base64 (referenceImage (apply_events s (removeImage s))) = None
   \<and> (fileToBase64 e f = Inr b \<and> createObjectURL e (Inl f) \<noteq> [] \<longrightarrow>
      removeImage (apply_events s (handleImageChange e s (Some f))) =
        [RevokeObjectURL (createObjectURL e (Inl f)),
         SetReferenceImage \<lparr>ref_file = None, previewUrl = None, base64 = None\<rparr>])"
  by (cases "previewUrl (referenceImage s)")
     (simp_all add: removeImage_def handleImageChange_def)

lemma split_comma_no_comma: "CHR '','' \<notin> set a \<Longrightarrow> split_comma a = [a]"
  by (induction a) auto

lemma split_comma_first:
  "CHR '','' \<notin> set a \<Longrightarrow> split_comma (a @ CHR '','' # b) = a # split_comma b"
  by (induction a) auto

lemma split_comma_nonempty: "split_comma a \<noteq> []"
  by (induction a) (simp_all split: list.splits)

lemma length_base64_alphabet: "length base64_alphabet = 64"
  by (simp add: base64_alphabet_def)

lemma sextet_in_alphabet: "sextet n \<in> set base64_alphabet"
  unfolding sextet_def by (rule nth_mem) (simp add: length_base64_alphabet)

lemma comma_not_in_alphabet: "CHR '','' \<notin> set base64_alphabet"
  by (simp add: base64_alphabet_def)

lemma sextet_not_comma: "sextet n \<noteq> CHR '',''" "CHR '','' \<noteq> sextet n"
  using sextet_in_alphabet [of n] comma_not_in_alphabet by metis+

lemma base64_encode_no_comma: "CHR '','' \<notin> set (base64_encode bs)"
  by (induction bs rule: base64_encode.induct) (simp_all add: sextet_not_comma)

lemma base64_encode_empty: "base64_encode bs = [] \<longleftrightarrow> bs = []"
  by (cases bs rule: base64_encode.cases) simp_all

text \<open>For a MIME type without a comma, \<open>fileToBase64\<close> returns the base64 text of the
  content from the data URL of the browser.\<close>

lemma fileToBase64_dataURL:
  assumes "readAsDataURL e f = Loaded_string (dataURL f)"
    and "CHR '','' \<notin> set (file_type f)"
  shows "fileToBase64 e f = Inr (Some (base64_encode (file_bytes f)))"
proof -
  let ?head = "''data:'' @ file_type f @ '';base64''"
  have "dataURL f = ?head @ CHR '','' # base64_encode (file_bytes f)"
    by (simp add: dataURL_def)
  moreover have "CHR '','' \<notin> set ?head"
    using assms(2) by simp
  then have "split_comma (?head @ CHR '','' # base64_encode (file_bytes f)) =
             ?head # split_comma (base64_encode (file_bytes f))"
    by (rule split_comma_first)
  ultimately have "split_comma (dataURL f) = ?head # split_comma (base64_encode (file_bytes f))"
    by (simp only:)
  then have "split_comma (dataURL f) = [?head, base64_encode (file_bytes f)]"
    by (simp only: split_comma_no_comma [OF base64_encode_no_comma])
  then have "index_opt (split_comma (dataURL f)) 1 = Some (base64_encode (file_bytes f))"
    by simp
  with assms(1) show ?thesis
    by (simp add: fileToBase64_def)
qed

lemma handleImageChange_dataURL:
  assumes "readAsDataURL e f = Loaded_string (dataURL f)"
    and "CHR '','' \<notin> set (file_type f)"
  shows "referenceImage (apply_events s (handleImageChange e s (Some f))) =
     \<lparr>ref_file = Some f, previewUrl = Some (createObjectURL e (Inl f)),
      base64 = Some (base64_encode (file_bytes f))\<rparr>"
  using fileToBase64_dataURL [OF assms]
  by (cases "previewUrl (referenceImage s)") (simp_all add: handleImageChange_def)

lemma handle_submits_payload:
  assumes "\<not> guard_returns s" and "newGoogleGenAI e (API_KEY e) = None"
    and "handleGenerateVideo e s = Some evs"
  shows "submitted_payloads evs = [build_payload s]"
proof -
  let ?pre = "[NewGoogleGenAI (API_KEY e), GenerateVideos (build_payload s)]"
  from assms(1,3) obtain outcome calls where
    body: "try_body e s = Some (outcome, calls)"
    and evs: "evs = begin_events @ calls @ finish_events outcome"
    by (auto simp: handleGenerateVideo_def split: option.splits)
  from try_body_Some [OF body] assms(2) obtain opn k final where
    "calls = ?pre \<or> calls = ?pre @ poll_calls e 0 opn k
     \<or> calls = ?pre @ poll_calls e 0 opn k @ snd (fetch_result e final)"
    by auto
  then have "submitted_payloads calls = [build_payload s]"
    using fetch_result_calls(2) [of e final] by (elim disjE) simp_all
  then show ?thesis
    unfolding evs by (simp add: begin_events_readings finish_events_readings)
qed

text \<open>
  C7, as the code has it. The request carries an image exactly when the stored base64
  text is not empty and a file is stored: its \<open>imageBytes\<close> is that text and its
  \<open>mimeType\<close> the type of the file. After a file with a MIME type without a comma has
  been picked and read by the browser, the stored text is the base64 text of the
  content of the file, so a file that is not empty is sent with it. Without a reference
  image, and also with one whose base64 text is empty (an empty file), the request has
  no image. The request submitted by the handler is this request.
\<close>

theorem payload_image:
  "(\<forall>b f. base64 (referenceImage s) = Some b \<and> b \<noteq> [] \<and>
           ref_file (referenceImage s) = Some f \<longrightarrow>
      image (build_payload s) = Some \<lparr>imageBytes = b, mimeType = file_type f\<rparr>)
   \<and> (ref_file (referenceImage s) = None \<or> \<not> truthy (base64 (referenceImage s)) \<longrightarrow>
      image (build_payload s) = None)
   \<and> (readAsDataURL e f = Loaded_string (dataURL f) \<and> CHR '','' \<notin> set (file_type f) \<and>
       file_bytes f \<noteq> [] \<longrightarrow>
      image (build_payload (apply_events s (handleImageChange e s (Some f)))) =
        Some \<lparr>imageBytes = base64_encode (file_bytes f), mimeType = file_type f\<rparr>)
   \<and> (\<not> guard_returns s \<and> newGoogleGenAI e (API_KEY e) = None \<and>
       handleGenerateVideo e s = Some evs \<longrightarrow>
      submitted_payloads evs = [build_payload s])"
proof (intro conjI allI impI)
  fix b f
  assume "base64 (referenceImage s) = Some b \<and> b \<noteq> [] \<and> ref_file (referenceImage s) = Some f"
  then show "image (build_payload s) = Some \<lparr>imageBytes = b, mimeType = file_type f\<rparr>"
    by (simp add: build_payload_def)
next
  assume "ref_file (referenceImage s) = None \<or> \<not> truthy (base64 (referenceImage s))"
  then show "image (build_payload s) = None"
    by (cases "base64 (referenceImage s)") (auto simp: build_payload_def)
next
  assume a: "readAsDataURL e f = Loaded_string (dataURL f) \<and> CHR '','' \<notin> set (file_type f) \<and>
       file_bytes f \<noteq> []"
  then have "referenceImage (apply_events s (handleImageChange e s (Some f))) =
     \<lparr>ref_file = Some f, previewUrl = Some (createObjectURL e (Inl f)),
      base64 = Some (base64_encode (file_bytes f))\<rparr>"
    by (simp add: handleImageChange_dataURL)
  moreover from a have "base64_encode (file_bytes f) \<noteq> []"
    by (simp add: base64_encode_empty)
  ultimately show "image (build_payload (apply_events s (handleImageChange e s (Some f)))) =
        Some \<lparr>imageBytes = base64_encode (file_bytes f), mimeType = file_type f\<rparr>"
    by (simp add: build_payload_def)
next
  assume "\<not> guard_returns s \<and> newGoogleGenAI e (API_KEY e) = None \<and>
       handleGenerateVideo e s = Some evs"
  then show "submitted_payloads evs = [build_payload s]"
    using handle_submits_payload by blast
qed

lemma demo_env_reads:
  "readAsDataURL demo_env f = Loaded_string (dataURL f)"
  "createObjectURL demo_env b = ''blob:app/1''"
  "newGoogleGenAI demo_env (API_KEY demo_env) = None"
  by (simp_all add: demo_env_def)

lemma png_type: "CHR '','' \<notin> set (file_type ten_byte_png)"
  "CHR '','' \<notin> set (file_type empty_png)"
  by (simp_all add: ten_byte_png_def empty_png_def)

lemma ten_byte_png_base64: "base64_encode (file_bytes ten_byte_png) = ''AQIDBAUGBwgJCg==''"
  by (simp add: ten_byte_png_def sextet_def base64_alphabet_def)

lemma with_image_state_image:
  "referenceImage with_image_state =
     \<lparr>ref_file = Some ten_byte_png, previewUrl = Some ''blob:app/1'',
      base64 = Some ''AQIDBAUGBwgJCg==''\<rparr>"
  unfolding with_image_state_def
  using handleImageChange_dataURL [OF demo_env_reads(1) png_type(1), of ready_state]
  by (simp add: demo_env_reads(2) ten_byte_png_base64)

lemma with_image_state_passes_guard: "\<not> guard_returns with_image_state"
proof -
  have "prompt with_image_state = prompt ready_state"
    and "isLoading with_image_state = isLoading ready_state"
    unfolding with_image_state_def
    by (simp_all add: handleImageChange_def ready_state_def initial_state_def
        split: sum.splits)
  with ready_state_passes_guard show ?thesis
    by (simp add: guard_returns_def)
qed

theorem removeImage_releases_and_clears_witness:
  "fileToBase64 demo_env ten_byte_png = Inr (Some ''AQIDBAUGBwgJCg=='')
   \<and> removeImage
        (apply_events ready_state (handleImageChange demo_env ready_state (Some ten_byte_png)))
       = [RevokeObjectURL ''blob:app/1'',
          SetReferenceImage \<lparr>ref_file = None, previewUrl = None, base64 = None\<rparr>]
   \<and> truthy (previewUrl (referenceImage with_image_state))
   \<and> removeImage with_image_state =
       [RevokeObjectURL ''blob:app/1'',
        SetReferenceImage \<lparr>ref_file = None, previewUrl = None, base64 = None\<rparr>]
   \<and> referenceImage (apply_events with_image_state (removeImage with_image_state)) =
       \<lparr>ref_file = None, previewUrl = None, base64 = None\<rparr>
   \<and> \<not> truthy (previewUrl (referenceImage ready_state))
   \<and> removeImage ready_state =
       [SetReferenceImage \<lparr>ref_file = None, previewUrl = None, base64 = None\<rparr>]"
proof -
  have a: "truthy (previewUrl (referenceImage with_image_state))"
    and a': "previewUrl (referenceImage with_image_state) = Some ''blob:app/1''"
    by (simp_all add: with_image_state_image)
  have b: "\<not> truthy (previewUrl (referenceImage ready_state))"
    by (simp add: ready_state_def initial_state_def)
  from removeImage_releases_and_clears [of with_image_state] a a'
  have "removeImage with_image_state =
       [RevokeObjectURL ''blob:app/1'',
        SetReferenceImage \<lparr>ref_file = None, previewUrl = None, base64 = None\<rparr>]"
    by auto
  moreover from removeImage_releases_and_clears [of with_image_state]
  have "referenceImage (apply_events with_image_state (removeImage with_image_state)) =
       \<lparr>ref_file = None, previewUrl = None, base64 = None\<rparr>"
    by simp
  moreover from removeImage_releases_and_clears [of ready_state] b
  have "removeImage ready_state =
       [SetReferenceImage \<lparr>ref_file = None, previewUrl = None, base64 = None\<rparr>]"
    by blast
  moreover have read: "fileToBase64 demo_env ten_byte_png = Inr (Some ''AQIDBAUGBwgJCg=='')"
    using fileToBase64_dataURL [OF demo_env_reads(1) png_type(1)]
    by (simp add: ten_byte_png_base64)
  moreover from removeImage_releases_and_clears
    [where e = demo_env and f = ten_byte_png and b = "Some ''AQIDBAUGBwgJCg==''"
       and s = ready_state] read
  have "removeImage
        (apply_events ready_state (handleImageChange demo_env ready_state (Some ten_byte_png)))
       = [RevokeObjectURL ''blob:app/1'',
          SetReferenceImage \<lparr>ref_file = None, previewUrl = None, base64 = None\<rparr>]"
    by (simp add: demo_env_reads(2))
  ultimately show ?thesis
    using a b by blast
qed

theorem payload_image_witness:
  "readAsDataURL demo_env ten_byte_png = Loaded_string (dataURL ten_byte_png)
   \<and> file_type ten_byte_png = ''image/png'' \<and> length (file_bytes ten_byte_png) = 10
   \<and> image (build_payload
        (apply_events ready_state (handleImageChange demo_env ready_state (Some ten_byte_png))))
       = Some \<lparr>imageBytes = ''AQIDBAUGBwgJCg=='', mimeType = ''image/png''\<rparr>
   \<and> ref_file (referenceImage ready_state) = None
   \<and> image (build_payload ready_state) = None
   \<and> handleGenerateVideo demo_env with_image_state \<noteq> None
   \<and> submitted_payloads (the (handleGenerateVideo demo_env with_image_state))
       = [build_payload with_image_state]
   \<and> image (build_payload with_image_state)
       = Some \<lparr>imageBytes = ''AQIDBAUGBwgJCg=='', mimeType = ''image/png''\<rparr>"
proof -
  have bytes: "file_bytes ten_byte_png \<noteq> []" "length (file_bytes ten_byte_png) = 10"
    and type: "file_type ten_byte_png = ''image/png''"
    by (simp_all add: ten_byte_png_def)
  have none: "ref_file (referenceImage ready_state) = None"
    by (simp add: ready_state_def initial_state_def)
  obtain evs where run: "handleGenerateVideo demo_env with_image_state = Some evs"
    using handle_ends(1) [OF with_image_state_passes_guard demo_env_try_body] by blast
  note picked = payload_image
    [where s = ready_state and e = demo_env and f = ten_byte_png]
  note sent = payload_image
    [where s = with_image_state and e = demo_env and evs = evs]
  from picked demo_env_reads(1) png_type(1) bytes(1)
  have 1: "image (build_payload
        (apply_events ready_state (handleImageChange demo_env ready_state (Some ten_byte_png))))
       = Some \<lparr>imageBytes = ''AQIDBAUGBwgJCg=='', mimeType = ''image/png''\<rparr>"
    by (simp add: ten_byte_png_base64 type)
  from picked none have 2: "image (build_payload ready_state) = None"
    by blast
  from sent with_image_state_passes_guard demo_env_reads(3) run
  have 3: "submitted_payloads evs = [build_payload with_image_state]"
    by blast
  from sent with_image_state_image
  have 4: "image (build_payload with_image_state)
       = Some \<lparr>imageBytes = ''AQIDBAUGBwgJCg=='', mimeType = ''image/png''\<rparr>"
    by (simp add: type)
  from 1 2 3 4 run none bytes(2) type demo_env_reads(1) show ?thesis
    by simp
qed

text \<open>
  C7 as stated fails for a reference image with no content: after the user has picked
  an empty PNG file, the file is stored as the reference image, its base64 text is the
  empty string, and the request has no image.
\<close>

theorem empty_image_is_not_sent:
  "ref_file (referenceImage
      (apply_events ready_state (handleImageChange demo_env ready_state (Some empty_png))))
     = Some empty_png
   \<and> base64 (referenceImage
      (apply_events ready_state (handleImageChange demo_env ready_state (Some empty_png))))
     = Some []
   \<and> image (build_payload
      (apply_events ready_state (handleImageChange demo_env ready_state (Some empty_png))))
     = None"
proof -
  have "referenceImage
      (apply_events ready_state (handleImageChange demo_env ready_state (Some empty_png)))
    = \<lparr>ref_file = Some empty_png, previewUrl = Some ''blob:app/1'', base64 = Some []\<rparr>"
    using handleImageChange_dataURL [OF demo_env_reads(1) png_type(2), of ready_state]
    by (simp add: demo_env_reads(2) empty_png_def)
  then show ?thesis
    by (simp add: build_payload_def)
qed

section \<open>One attempt at a time\<close>

lemma finish_events_not_busy: "\<not> isLoading (apply_events s (finish_events outcome))"
  by (cases outcome) (simp_all add: finish_events_def catch_events_def)

lemma other_handlers_keep_isLoading:
  "isLoading (apply_events s (on_mount e)) = isLoading s"
  "isLoading (apply_events s (handleSelectKey e)) = isLoading s"
  "isLoading (apply_events s (handleImageChange e s' picked)) = isLoading s"
  "isLoading (apply_events s (removeImage s')) = isLoading s"
proof -
  show "isLoading (apply_events s (on_mount e)) = isLoading s"
    by (simp add: on_mount_def checkApiKey_def split: option.splits sum.splits)
  show "isLoading (apply_events s (handleSelectKey e)) = isLoading s"
    by (simp add: handleSelectKey_def split: option.splits)
  show "isLoading (apply_events s (handleImageChange e s' picked)) = isLoading s"
    by (cases "previewUrl (referenceImage s')")
       (simp_all add: handleImageChange_def split: option.splits sum.splits)
  show "isLoading (apply_events s (removeImage s')) = isLoading s"
    by (cases "previewUrl (referenceImage s')") (simp_all add: removeImage_def)
qed

lemma perform_one_at_a_time:
  assumes "one_at_a_time c"
  shows "one_at_a_time (perform e c a)"
proof (cases a)
  case Click_generate
  show ?thesis
  proof (cases "guard_returns (st c)")
    case True
    with assms Click_generate show ?thesis by simp
  next
    case False
    then have "\<not> isLoading (st c)" by (simp add: guard_returns_def)
    with assms have "in_flight c = []" by (simp add: one_at_a_time_def)
    with False Click_generate show ?thesis
      by (simp add: one_at_a_time_def begin_state)
  qed
next
  case (Attempt_ends i)
  show ?thesis
  proof (cases "i < length (in_flight c)")
    case False
    with assms Attempt_ends show ?thesis by simp
  next
    case True
    with assms have i: "i = 0" and len: "length (in_flight c) = 1"
      by (simp_all add: one_at_a_time_def)
    show ?thesis
    proof (cases "try_body e (in_flight c ! i)")
      case None
      with assms Attempt_ends True show ?thesis by simp
    next
      case (Some r)
      then obtain outcome calls where "try_body e (in_flight c ! i) = Some (outcome, calls)"
        by (cases r) simp
      with Attempt_ends True i len show ?thesis
        by (simp add: one_at_a_time_def finish_events_not_busy)
    qed
  qed
next
  case Click_select_key
  with assms show ?thesis
    by (simp add: one_at_a_time_def other_handlers_keep_isLoading)
next
  case (Pick_image picked)
  with assms show ?thesis
    by (simp add: one_at_a_time_def other_handlers_keep_isLoading)
next
  case Click_remove_image
  with assms show ?thesis
    by (simp add: one_at_a_time_def other_handlers_keep_isLoading)
next
  case (Edit_prompt p)
  with assms show ?thesis by (simp add: one_at_a_time_def)
next
  case (Choose_aspectRatio r)
  with assms show ?thesis by (simp add: one_at_a_time_def)
next
  case (Choose_resolution r)
  with assms show ?thesis by (simp add: one_at_a_time_def)
next
  case (Interval_fires k)
  with assms show ?thesis by (simp add: one_at_a_time_def)
qed

lemma reachable_one_at_a_time: "reachable c \<Longrightarrow> one_at_a_time c"
proof (induction rule: reachable.induct)
  case first_render
  show ?case by (simp add: one_at_a_time_def initial_state_def)
next
  case (mounted e)
  have "\<not> isLoading initial_state" by (simp add: initial_state_def)
  then show ?case
    by (simp add: one_at_a_time_def other_handlers_keep_isLoading)
next
  case (step c e a)
  then show ?case by (simp add: perform_one_at_a_time)
qed

text \<open>The controller runs the handler: a click that begins an attempt, followed by the
  end of that attempt, leaves the state the handler computes.\<close>

lemma controller_runs_handler:
  assumes "\<not> guard_returns s" and "handleGenerateVideo e s = Some evs"
  shows "perform e (perform e \<lparr>st = s, in_flight = []\<rparr> Click_generate) (Attempt_ends 0) =
         \<lparr>st = apply_events s evs, in_flight = []\<rparr>"
proof -
  from assms obtain outcome calls where
    body: "try_body e s = Some (outcome, calls)"
    and evs: "evs = begin_events @ calls @ finish_events outcome"
    by (auto simp: handleGenerateVideo_def split: option.splits)
  from handle_ends(2) [OF assms(1) body] assms(1) body show ?thesis
    unfolding evs by simp
qed

lemma guard_returns_iff:
  "guard_returns s \<longleftrightarrow> (\<forall>ch\<in>set (prompt s). is_white_space ch) \<or> isLoading s"
  by (simp add: guard_returns_def trim_empty_iff)



end
